theory Spec2Isabelle
  imports Main
begin

section \<open>JavaScript values, objects and errors\<close>

text \<open>
  A number is NaN, an infinity, zero (of either sign: the two print alike and are both
  falsy), or finite and not zero. A finite number is given the way the language's
  number-to-string conversion sees it: its sign, the integer \<open>s\<close> whose \<open>k\<close> decimal
  digits are the shortest that identify the double, and the position \<open>n\<close> of the decimal
  point, so that its magnitude is \<open>s \<times> 10\<^sup>n\<^sup>-\<^sup>k\<close>; \<open>s\<close> is positive and does not end in
  \<open>0\<close>. Every double has exactly one such form.
\<close>

datatype number =
    NaN
  | Infinity
  | NegInfinity
  | Zero
  | Fin bool nat int

text \<open>The decimal digits of a natural number.\<close>

fun digits :: "nat \<Rightarrow> string" where
  "digits n =
     (if n < 10 then [''0123456789'' ! n]
      else digits (n div 10) @ [''0123456789'' ! (n mod 10)])"

declare digits.simps [simp del]



text \<open>
  The number that an integer is. For an integer that a double holds exactly and that
  its own digits identify (every integer of magnitude up to \<open>2\<^sup>5\<^sup>3\<close>, so every epoch
  time) the shortest digits are the integer's digits without the zeros at the end.
\<close>

fun strip0 :: "nat \<Rightarrow> nat" where
  "strip0 m = (if m = 0 \<or> m mod 10 \<noteq> 0 then m else strip0 (m div 10))"

declare strip0.simps [simp del]

definition int_number :: "int \<Rightarrow> number" where
  "int_number i =
     (if i = 0 then Zero
      else Fin (i < 0) (strip0 (nat \<bar>i\<bar>)) (int (length (digits (nat \<bar>i\<bar>)))))"

text \<open>The integer that a number is, when it is one.\<close>

fun number_int :: "number \<Rightarrow> int option" where
  "number_int Zero = Some 0"
| "number_int (Fin negative s n) =
     (let k = int (length (digits s))
      in if k \<le> n then Some ((if negative then - 1 else 1) * int s * 10 ^ nat (n - k))
         else None)"
| "number_int _ = None"

text \<open>
  The native values a document can hold. A Date carries its epoch milliseconds (an
  invalid date is outside the model). Functions are not document values: the functions
  of a schema live in the property and type descriptors below.
\<close>

datatype jsval =
    Undefined
  | Null
  | Bool bool
  | Num number
  | Str string
  | Date int
  | Arr "jsval list"
  | Obj "(string \<times> jsval) list"

text \<open>JavaScript truthiness, as used by \<^verbatim>\<open>hasProperty || value\<close>.\<close>

fun truthy :: "jsval \<Rightarrow> bool" where
  "truthy Undefined = False"
| "truthy Null = False"
| "truthy (Bool b) = b"
| "truthy (Num x) = (x \<noteq> NaN \<and> x \<noteq> Zero)"
| "truthy (Str s) = (s \<noteq> [])"
| "truthy (Date t) = True"
| "truthy (Arr xs) = True"
| "truthy (Obj kvs) = True"

text \<open>
  A plain object is the list of its own enumerable properties in \<^verbatim>\<open>for ... in\<close>
  order. Lookups in a document, a schema or the registry are own-property lookups: a
  name that only the prototype has, and an own member named \<^verbatim>\<open>hasOwnProperty\<close>
  (which would shadow the guard of the loops), are outside the model there. The one
  lookup modelled together with the prototype is that of a type's validators, in the
  validation engine below. Property names are identifiers (names that are array
  indices, which JavaScript enumerates first, are outside the model).
\<close>

type_synonym 'v object = "(string \<times> 'v) list"

definition keys :: "'v object \<Rightarrow> string list" where
  "keys obj = map fst obj"

definition hasOwnProperty :: "'v object \<Rightarrow> string \<Rightarrow> bool" where
  "hasOwnProperty obj k = (map_of obj k \<noteq> None)"

definition obj_get :: "jsval object \<Rightarrow> string \<Rightarrow> jsval" where
  "obj_get obj k = (case map_of obj k of Some v \<Rightarrow> v | None \<Rightarrow> Undefined)"

text \<open>\<^verbatim>\<open>obj[k] = v\<close>: an existing key keeps its place, a new key is appended.\<close>

fun obj_set :: "string \<Rightarrow> 'v \<Rightarrow> 'v object \<Rightarrow> 'v object" where
  "obj_set k v [] = [(k, v)]"
| "obj_set k v ((k', v') # rest) =
     (if k' = k then (k, v) # rest else (k', v') # obj_set k v rest)"

text \<open>A thrown error: the constructor's name and the message.\<close>

record error =
  ename :: string
  message :: string

definition Error :: "string \<Rightarrow> error" where
  "Error msg = \<lparr>ename = ''Error'', message = msg\<rparr>"

section \<open>Schema: properties and the type registry\<close>

text \<open>
  A property-level validation rule is either a function of the value, which throws
  or returns (its return value is ignored), or any other value: the parameter handed
  to the type's built-in validator of the same name.
\<close>

datatype rule = RuleFn "jsval \<Rightarrow> error option" | RuleParam jsval

text \<open>
  A property spec. \<open>pfun\<close> gives the function-valued members by name (\<^verbatim>\<open>get\<close>,
  \<^verbatim>\<open>set\<close>, \<^verbatim>\<open>onCreate\<close>, \<^verbatim>\<open>onUpdate\<close>, \<^verbatim>\<open>onUpsert\<close>, ...), so that
  \<^verbatim>\<open>typeof property[name] === 'function'\<close> is \<open>pfun property name \<noteq> None\<close>.
  \<open>pvalidate\<close> holds the entries of \<^verbatim>\<open>property.validate\<close> when that is a plain
  object and is empty otherwise.
\<close>

record property =
  ptype :: string
  required :: bool
  pfun :: "string \<Rightarrow> (jsval \<Rightarrow> error + jsval) option"
  pvalidate :: "rule object"

text \<open>
  A type descriptor of the registry. \<open>tget\<close> and \<open>tset\<close> are \<^verbatim>\<open>type.get\<close> and
  \<^verbatim>\<open>type.set\<close> when they are functions; they receive the value and the property
  spec (which \<^verbatim>\<open>marshallKey\<close> may pass as undefined). \<open>tcheck\<close> is
  \<^verbatim>\<open>type.validate.type\<close> when it is a function, the structural validator; it is
  called synchronously with the value and the property spec. \<open>tbuiltins\<close> gives the
  other function-valued members of \<^verbatim>\<open>type.validate\<close> by name, called with the
  value, the rule parameter and the property spec.
\<close>

record type_desc =
  tget :: "(jsval \<Rightarrow> property option \<Rightarrow> error + jsval) option"
  tset :: "(jsval \<Rightarrow> property option \<Rightarrow> error + jsval) option"
  tcheck :: "(jsval \<Rightarrow> property option \<Rightarrow> error option) option"
  tbuiltins :: "string \<Rightarrow> (jsval \<Rightarrow> jsval \<Rightarrow> property \<Rightarrow> error option) option"

text \<open>
  The registry \<^verbatim>\<open>types\<close> of \<^verbatim>\<open>src/types\<close> is not among the sources: it is a
  parameter of every operation, a lookup from a type name to its descriptor.
\<close>

type_synonym registry = "string \<Rightarrow> type_desc option"

text \<open>\<^verbatim>\<open>const { [property ? property.type : 'null']: type } = types\<close>\<close>

definition type_of :: "registry \<Rightarrow> property option \<Rightarrow> type_desc option" where
  "type_of types property =
     types (case property of Some p \<Rightarrow> ptype p | None \<Rightarrow> ''null'')"

section \<open>Calls and their order\<close>

text \<open>
  Every call of a schema function is recorded, in order, so that what is invoked, with
  which argument, and what is skipped can be stated. An operation yields the calls it
  made and either the error it threw or its result. Each call is awaited before the next
  statement runs, so an asynchronous function that rejects is a function that throws.
  The assertions on the shape of the arguments (plain objects, a string for
  \<^verbatim>\<open>fieldHook\<close>) hold by the types of the model.
\<close>

datatype event =
    Step string
  | HookCall string string jsval
  | PropSetCall string jsval
  | TypeSetCall string jsval
  | TypeGetCall string jsval
  | PropGetCall string jsval
  | TypeCheckCall string jsval
  | RuleCall string string jsval
  | BuiltinCall string string jsval jsval

type_synonym 'a result = "event list \<times> (error + 'a)"

definition ret :: "'a \<Rightarrow> 'a result" where
  "ret x = ([], Inr x)"

definition throw :: "error \<Rightarrow> 'a result" where
  "throw e = ([], Inl e)"

definition call :: "event \<Rightarrow> error + 'a \<Rightarrow> 'a result" where
  "call ev r = ([ev], r)"

definition check :: "event \<Rightarrow> error option \<Rightarrow> unit result" where
  "check ev r = ([ev], case r of None \<Rightarrow> Inr () | Some e \<Rightarrow> Inl e)"

definition bind :: "'a result \<Rightarrow> ('a \<Rightarrow> 'b result) \<Rightarrow> 'b result" where
  "bind m f =
     (case m of
        (evs, Inl e) \<Rightarrow> (evs, Inl e)
      | (evs, Inr x) \<Rightarrow> (case f x of (evs', r) \<Rightarrow> (evs @ evs', r)))"

section \<open>The read and write pipelines\<close>

text \<open>
  The conditional calls of the two loops, one definition per \<^verbatim>\<open>if\<close> statement.
  \<open>present\<close> is \<^verbatim>\<open>hasProperty\<close>; the guard of a transform is
  \<^verbatim>\<open>hasProperty || value\<close>.
\<close>

definition type_get_step ::
  "type_desc option \<Rightarrow> bool \<Rightarrow> string \<Rightarrow> property \<Rightarrow> jsval \<Rightarrow> jsval result" where
  "type_get_step type present key property value =
     (case type of
        Some t \<Rightarrow>
          (case tget t of
             Some f \<Rightarrow>
               if present \<or> truthy value
               then call (TypeGetCall key value) (f value (Some property))
               else ret value
           | None \<Rightarrow> ret value)
      | None \<Rightarrow> ret value)"

definition prop_get_step :: "bool \<Rightarrow> string \<Rightarrow> property \<Rightarrow> jsval \<Rightarrow> jsval result" where
  "prop_get_step present key property value =
     (case pfun property ''get'' of
        Some f \<Rightarrow>
          if present \<or> truthy value then call (PropGetCall key value) (f value)
          else ret value
      | None \<Rightarrow> ret value)"

text \<open>
  \<open>fieldHook\<close> is \<^verbatim>\<open>opts.fieldHook\<close>: absent, or a string (the empty string is
  falsy). The hook is called whether or not the field is present.
\<close>

definition hook_step :: "string option \<Rightarrow> string \<Rightarrow> property \<Rightarrow> jsval \<Rightarrow> jsval result" where
  "hook_step fieldHook key property value =
     (case fieldHook of
        Some h \<Rightarrow>
          (case pfun property h of
             Some f \<Rightarrow>
               if h \<noteq> [] then call (HookCall key h value) (f value)
               else ret value
           | None \<Rightarrow> ret value)
      | None \<Rightarrow> ret value)"

definition prop_set_step :: "bool \<Rightarrow> string \<Rightarrow> property \<Rightarrow> jsval \<Rightarrow> jsval result" where
  "prop_set_step present key property value =
     (case pfun property ''set'' of
        Some f \<Rightarrow>
          if present \<or> truthy value then call (PropSetCall key value) (f value)
          else ret value
      | None \<Rightarrow> ret value)"

definition type_set_step ::
  "type_desc option \<Rightarrow> bool \<Rightarrow> string \<Rightarrow> property \<Rightarrow> jsval \<Rightarrow> jsval result" where
  "type_set_step type present key property value =
     (case type of
        Some t \<Rightarrow>
          (case tset t of
             Some f \<Rightarrow>
               if present \<or> truthy value
               then call (TypeSetCall key value) (f value (Some property))
               else ret value
           | None \<Rightarrow> ret value)
      | None \<Rightarrow> ret value)"

text \<open>
  The assignment that ends an iteration of either loop: a present field is overwritten,
  an absent one is created only for a value other than \<^verbatim>\<open>undefined\<close>.
\<close>

definition assign :: "bool \<Rightarrow> string \<Rightarrow> jsval \<Rightarrow> jsval object \<Rightarrow> jsval object" where
  "assign present key value data =
     (if present then obj_set key value data
      else if value \<noteq> Undefined then obj_set key value data
      else data)"

text \<open>One iteration of the loop of \<^verbatim>\<open>formatReadData\<close>, and the loop.\<close>

definition read_field :: "registry \<Rightarrow> string \<times> property \<Rightarrow> jsval object \<Rightarrow> jsval object result" where
  "read_field types kp data =
     (let key = fst kp; property = snd kp;
          type = type_of types (Some property);
          hasProperty = hasOwnProperty data key;
          value = (if hasProperty then obj_get data key else Undefined)
      in bind (type_get_step type hasProperty key property value) (\<lambda>value.
         bind (prop_get_step hasProperty key property value) (\<lambda>value.
         ret (assign hasProperty key value data))))"

fun read_loop :: "registry \<Rightarrow> property object \<Rightarrow> jsval object \<Rightarrow> jsval object result" where
  "read_loop types [] data = ret data"
| "read_loop types (kp # rest) data = bind (read_field types kp data) (read_loop types rest)"

definition formatReadData :: "registry \<Rightarrow> property object \<Rightarrow> jsval object \<Rightarrow> jsval object result" where
  "formatReadData types properties data = read_loop types properties data"

text \<open>One iteration of the loop of \<^verbatim>\<open>formatWriteData\<close>, and the loop.\<close>

definition write_field ::
  "registry \<Rightarrow> string option \<Rightarrow> string \<times> property \<Rightarrow> jsval object \<Rightarrow> jsval object result" where
  "write_field types fieldHook kp data =
     (let key = fst kp; property = snd kp;
          type = type_of types (Some property);
          hasProperty = hasOwnProperty data key;
          value = (if hasProperty then obj_get data key else Undefined)
      in bind (hook_step fieldHook key property value) (\<lambda>value.
         bind (prop_set_step hasProperty key property value) (\<lambda>value.
         bind (type_set_step type hasProperty key property value) (\<lambda>value.
         ret (assign hasProperty key value data)))))"

fun write_loop ::
  "registry \<Rightarrow> string option \<Rightarrow> property object \<Rightarrow> jsval object \<Rightarrow> jsval object result" where
  "write_loop types fieldHook [] data = ret data"
| "write_loop types fieldHook (kp # rest) data =
     bind (write_field types fieldHook kp data) (write_loop types fieldHook rest)"

definition formatWriteData ::
  "registry \<Rightarrow> property object \<Rightarrow> jsval object \<Rightarrow> string option \<Rightarrow> jsval object result" where
  "formatWriteData types properties data fieldHook = write_loop types fieldHook properties data"

section \<open>The validation engine\<close>

text \<open>
  \<^verbatim>\<open>typeValidators\<close> is a fresh object literal, so a lookup in it that finds no own
  member goes on to \<^verbatim>\<open>Object.prototype\<close>. These are the function-valued members of
  \<^verbatim>\<open>Object.prototype\<close>, as they behave when the engine calls them as a validator:
  with the value, the rule's value and the property spec as arguments and no receiver.
  \<^verbatim>\<open>constructor\<close> and \<^verbatim>\<open>toString\<close> return; \<^verbatim>\<open>isPrototypeOf\<close> returns for a
  primitive value and needs its receiver for an object; the others need their receiver
  and throw a TypeError, whose wording is the engine's own and is given here once for
  all of them. The accessor \<^verbatim>\<open>__proto__\<close> yields an object, which is not a function.
\<close>

definition receiver_error :: error where
  "receiver_error =
     \<lparr>ename = ''TypeError'', message = ''Cannot convert undefined or null to object''\<rparr>"

fun is_object :: "jsval \<Rightarrow> bool" where
  "is_object (Date t) = True"
| "is_object (Arr xs) = True"
| "is_object (Obj kvs) = True"
| "is_object _ = False"

definition object_prototype ::
  "string \<Rightarrow> (jsval \<Rightarrow> jsval \<Rightarrow> property \<Rightarrow> error option) option" where
  "object_prototype name =
     (if name \<in> set [''constructor'', ''toString'']
      then Some (\<lambda>value param property. None)
      else if name = ''isPrototypeOf''
      then Some (\<lambda>value param property. if is_object value then Some receiver_error else None)
      else if name \<in> set [''hasOwnProperty'', ''propertyIsEnumerable'', ''toLocaleString'',
                            ''valueOf'', ''__defineGetter__'', ''__defineSetter__'',
                            ''__lookupGetter__'', ''__lookupSetter__'']
      then Some (\<lambda>value param property. Some receiver_error)
      else None)"

text \<open>
  \<^verbatim>\<open>const { type: assertValidType, ...typeValidators } = type.validate\<close>, and the
  lookup \<^verbatim>\<open>typeValidators[vkey]\<close> when it yields a function: an own member other
  than \<^verbatim>\<open>type\<close>, or else an inherited one. The built-ins of a type descriptor
  are the function-valued members of its \<^verbatim>\<open>validate\<close>; an own member that is not a
  function and bears a name of \<^verbatim>\<open>Object.prototype\<close> is outside the model.
\<close>

definition typeValidators ::
  "type_desc option \<Rightarrow> string \<Rightarrow> (jsval \<Rightarrow> jsval \<Rightarrow> property \<Rightarrow> error option) option" where
  "typeValidators type vkey =
     (case (case type of
              Some t \<Rightarrow> if vkey = ''type'' then None else tbuiltins t vkey
            | None \<Rightarrow> None) of
        Some validateType \<Rightarrow> Some validateType
      | None \<Rightarrow> object_prototype vkey)"

text \<open>\<^verbatim>\<open>typeof assertValidType === 'function' && assertValidType(data[key], property)\<close>\<close>

definition structural_step ::
  "type_desc option \<Rightarrow> string \<Rightarrow> property option \<Rightarrow> jsval \<Rightarrow> unit result" where
  "structural_step type key property value =
     (case type of
        Some t \<Rightarrow>
          (case tcheck t of
             Some assertValidType \<Rightarrow>
               check (TypeCheckCall key value) (assertValidType value property)
           | None \<Rightarrow> ret ())
      | None \<Rightarrow> ret ())"

text \<open>
  The loop over \<^verbatim>\<open>propertyValidators\<close>: a function is called with the value; any
  other rule value needs a built-in of the same name, which is called with the value,
  the rule value and the property spec.
\<close>

fun rules_loop ::
  "type_desc option \<Rightarrow> string \<Rightarrow> property \<Rightarrow> jsval \<Rightarrow> rule object \<Rightarrow> unit result" where
  "rules_loop type key property value [] = ret ()"
| "rules_loop type key property value ((vkey, r) # rest) =
     bind (case r of
             RuleFn validateProperty \<Rightarrow>
               check (RuleCall key vkey value) (validateProperty value)
           | RuleParam param \<Rightarrow>
               (case typeValidators type vkey of
                  Some validateType \<Rightarrow>
                    check (BuiltinCall key vkey value param) (validateType value param property)
                | None \<Rightarrow>
                    throw (Error (''Expected validator '' @ vkey @ '' to be a function''))))
          (\<lambda>_. rules_loop type key property value rest)"

text \<open>
  The body of the \<^verbatim>\<open>try\<close> for one key of the document. The key and its value come
  from the document's own entry; an undeclared key has no property and the type
  registered under \<^verbatim>\<open>'null'\<close>, if any.
\<close>

definition check_field :: "registry \<Rightarrow> property object \<Rightarrow> string \<times> jsval \<Rightarrow> unit result" where
  "check_field types properties kv =
     (let key = fst kv; value = snd kv;
          property = map_of properties key;
          type = type_of types property
      in bind (structural_step type key property value) (\<lambda>_.
         case property of
           Some p \<Rightarrow> rules_loop type key p value (pvalidate p)
         | None \<Rightarrow> ret ()))"

text \<open>The \<^verbatim>\<open>catch\<close>: the message of whatever was thrown is prefixed, and it is thrown again.\<close>

definition rethrow :: "string \<Rightarrow> string \<Rightarrow> 'a result \<Rightarrow> 'a result" where
  "rethrow prefix key m =
     (case m of
        (evs, Inl err) \<Rightarrow>
          (evs, Inl (err\<lparr>message := ''Error validating '' @ prefix @ key @ '': '' @ message err\<rparr>))
      | (evs, Inr x) \<Rightarrow> (evs, Inr x))"

definition validate_field ::
  "registry \<Rightarrow> property object \<Rightarrow> string \<Rightarrow> string \<times> jsval \<Rightarrow> unit result" where
  "validate_field types properties prefix kv =
     rethrow prefix (fst kv) (check_field types properties kv)"

fun validate_loop ::
  "registry \<Rightarrow> property object \<Rightarrow> string \<Rightarrow> jsval object \<Rightarrow> unit result" where
  "validate_loop types properties prefix [] = ret ()"
| "validate_loop types properties prefix (kv # rest) =
     bind (validate_field types properties prefix kv)
          (\<lambda>_. validate_loop types properties prefix rest)"

definition validateData ::
  "registry \<Rightarrow> property object \<Rightarrow> jsval object \<Rightarrow> string \<Rightarrow> unit result" where
  "validateData types properties data prefix = validate_loop types properties prefix data"

section \<open>The key marshaller\<close>


















section \<open>The steps of an update\<close>

record keySchema =
  hash_key :: string
  range_key :: "string option"

text \<open>
  Modelled from the spec: \<^verbatim>\<open>assertRequiredUpdateProps\<close> of \<^verbatim>\<open>helpers/update\<close> is
  not among the sources. "Any field marked required that the caller is attempting to
  explicitly null out is rejected with RequiredFieldError."
\<close>

fun assertRequiredUpdateProps :: "property object \<Rightarrow> jsval object \<Rightarrow> unit result" where
  "assertRequiredUpdateProps [] update = ret ()"
| "assertRequiredUpdateProps ((key, property) # rest) update =
     (if required property \<and> hasOwnProperty update key \<and> obj_get update key = Null
      then throw \<lparr>ename = ''RequiredFieldError'', message = ''Required field '' @ key\<rparr>
      else assertRequiredUpdateProps rest update)"

text \<open>
  Modelled from the spec: \<^verbatim>\<open>formatUpdateData\<close> of \<^verbatim>\<open>helpers/update\<close> is not among
  the sources. "The write-pipeline subset restricted to onUpdate/onUpsert hooks and set
  transforms (no onCreate)": the write pipeline with the hook \<^verbatim>\<open>onUpdate\<close>.
\<close>

definition formatUpdateData :: "registry \<Rightarrow> property object \<Rightarrow> jsval object \<Rightarrow> jsval object result" where
  "formatUpdateData types properties update =
     formatWriteData types properties update (Some ''onUpdate'')"

text \<open>
  \<^verbatim>\<open>updateDocument\<close> up to the point where the statement is built: the two
  assertions on \<^verbatim>\<open>where\<close>, then the three helper calls in the order of the source.
  Entering a helper is recorded as a \<open>Step\<close>. The statement builder
  (\<^verbatim>\<open>stringifyUpdateStatement\<close>) and the store are not among the sources.
\<close>

definition updateDocument_steps ::
  "registry \<Rightarrow> keySchema \<Rightarrow> property object \<Rightarrow> jsval object \<Rightarrow> jsval object \<Rightarrow> jsval object result" where
  "updateDocument_steps types schema properties update wher =
     (if \<not> hasOwnProperty wher (hash_key schema)
      then throw (Error (''Missing '' @ hash_key schema @ '' hash property from where''))
      else case (case range_key schema of
                   Some r \<Rightarrow> if r \<noteq> [] \<and> \<not> hasOwnProperty wher r then Some r else None
                 | None \<Rightarrow> None) of
        Some r \<Rightarrow> throw (Error (''Missing '' @ r @ '' range property from where''))
      | None \<Rightarrow>
          bind (call (Step ''assertRequiredUpdateProps'') (Inr ())) (\<lambda>_.
          bind (assertRequiredUpdateProps properties update) (\<lambda>_.
          bind (call (Step ''validateData'') (Inr ())) (\<lambda>_.
          bind (validateData types properties update []) (\<lambda>_.
          bind (call (Step ''formatUpdateData'') (Inr ())) (\<lambda>_.
          formatUpdateData types properties update))))))"

text \<open>
  The place of a call in the order of steps. In the source: the required-update
  assertion, the validation engine, the write pipeline.
\<close>

fun order_in_code :: "event \<Rightarrow> nat" where
  "order_in_code (Step s) =
     (if s = ''assertRequiredUpdateProps'' then 0 else if s = ''validateData'' then 1 else 2)"
| "order_in_code (TypeCheckCall k v) = 1"
| "order_in_code (RuleCall k r v) = 1"
| "order_in_code (BuiltinCall k r v p) = 1"
| "order_in_code (HookCall k h v) = 2"
| "order_in_code (PropSetCall k v) = 2"
| "order_in_code (TypeSetCall k v) = 2"
| "order_in_code (TypeGetCall k v) = 3"
| "order_in_code (PropGetCall k v) = 3"

text \<open>
  In the claim's words: the required-update assertion, the write pipeline, the
  validation engine.
\<close>

fun order_in_claim :: "event \<Rightarrow> nat" where
  "order_in_claim (Step s) =
     (if s = ''assertRequiredUpdateProps'' then 0 else if s = ''validateData'' then 2 else 1)"
| "order_in_claim (TypeCheckCall k v) = 2"
| "order_in_claim (RuleCall k r v) = 2"
| "order_in_claim (BuiltinCall k r v p) = 2"
| "order_in_claim (HookCall k h v) = 1"
| "order_in_claim (PropSetCall k v) = 1"
| "order_in_claim (TypeSetCall k v) = 1"
| "order_in_claim (TypeGetCall k v) = 3"
| "order_in_claim (PropGetCall k v) = 3"

section \<open>Predicates of the properties\<close>

text \<open>The named hook of a property, called on \<^verbatim>\<open>undefined\<close>, returns a defined value.\<close>

definition hook_produces :: "string option \<Rightarrow> property \<Rightarrow> bool" where
  "hook_produces fieldHook p =
     (case fieldHook of
        Some h \<Rightarrow>
          h \<noteq> [] \<and>
          (case pfun p h of
             Some f \<Rightarrow> (case f Undefined of Inr v \<Rightarrow> v \<noteq> Undefined | Inl e \<Rightarrow> False)
           | None \<Rightarrow> False)
      | None \<Rightarrow> False)"

text \<open>The structural validator that the engine uses for a key of the document.\<close>

definition structural ::
  "registry \<Rightarrow> property object \<Rightarrow> string \<Rightarrow> (jsval \<Rightarrow> property option \<Rightarrow> error option) option" where
  "structural types properties key =
     (case type_of types (map_of properties key) of Some t \<Rightarrow> tcheck t | None \<Rightarrow> None)"

text \<open>A call of a property-level rule (a function or a built-in) of a key on a value.\<close>

fun is_rule_call :: "string \<Rightarrow> jsval \<Rightarrow> event \<Rightarrow> bool" where
  "is_rule_call k v (RuleCall k' r v') = (k' = k \<and> v' = v)"
| "is_rule_call k v (BuiltinCall k' r v' p) = (k' = k \<and> v' = v)"
| "is_rule_call k v _ = False"

text \<open>Any call of a validator for a key.\<close>

fun is_validator_call :: "string \<Rightarrow> event \<Rightarrow> bool" where
  "is_validator_call k (TypeCheckCall k' v) = (k' = k)"
| "is_validator_call k (RuleCall k' r v) = (k' = k)"
| "is_validator_call k (BuiltinCall k' r v p) = (k' = k)"
| "is_validator_call k _ = False"

text \<open>
  The engine gets as far as a rule of a field: the fields before it in the document pass
  their checks, the field passes the structural validator of its type, and the rules
  before it in the field's \<^verbatim>\<open>validate\<close> map pass.
\<close>

definition rule_reached ::
  "registry \<Rightarrow> property object \<Rightarrow> jsval object \<Rightarrow> string \<Rightarrow> jsval \<Rightarrow> property \<Rightarrow> rule object \<Rightarrow> bool" where
  "rule_reached types properties pre k v p rpre =
     (list_all (\<lambda>kv. snd (check_field types properties kv) = Inr ()) pre
      \<and> snd (structural_step (type_of types (Some p)) k (Some p) v) = Inr ()
      \<and> snd (rules_loop (type_of types (Some p)) k p v rpre) = Inr ())"

text \<open>
  The error that leaves the engine when a rule of a field names no built-in validator:
  the assertion's message under the prefix of the \<^verbatim>\<open>catch\<close>.
\<close>

definition unknown_validator :: "string \<Rightarrow> string \<Rightarrow> string \<Rightarrow> error" where
  "unknown_validator prefix key vkey =
     Error (''Error validating '' @ prefix @ key @ '': Expected validator '' @ vkey @
            '' to be a function'')"

text \<open>The prefix that the \<^verbatim>\<open>catch\<close> puts on an error.\<close>

definition prefixed :: "string \<Rightarrow> string \<Rightarrow> error \<Rightarrow> error" where
  "prefixed prefix key err =
     err\<lparr>message := ''Error validating '' @ prefix @ key @ '': '' @ message err\<rparr>"

section \<open>An example registry and schema\<close>

text \<open>
  A registry with a text type and a timestamp type stored as a number, and the schema
  of \<^verbatim>\<open>examples/sessions.js\<close> (without \<^verbatim>\<open>ipAddress\<close> and \<^verbatim>\<open>userAgent\<close>) with
  the timestamp properties that \<^verbatim>\<open>createModel\<close> adds. The clock of
  \<^verbatim>\<open>new Date()\<close> is fixed.
\<close>

definition ex_string :: type_desc where
  "ex_string =
     \<lparr>tget = None, tset = None,
      tcheck = Some (\<lambda>v p. case v of Str s \<Rightarrow> None
                                   | _ \<Rightarrow> Some (Error ''Expected value to be a string'')),
      tbuiltins = (\<lambda>name.
        if name = ''notNull''
        then Some (\<lambda>v param p. if v = Null then Some (Error ''Expected value to be not null'')
                                else None)
        else if name = ''notEmpty''
        then Some (\<lambda>v param p. if v = Str [] then Some (Error ''Expected value to be not empty'')
                                else None)
        else None)\<rparr>"

definition ex_date :: type_desc where
  "ex_date =
     \<lparr>tget = Some (\<lambda>v p. case v of
                            Num x \<Rightarrow> (case number_int x of Some t \<Rightarrow> Inr (Date t)
                                                        | None \<Rightarrow> Inr v)
                          | _ \<Rightarrow> Inr v),
      tset = Some (\<lambda>v p. case v of Date t \<Rightarrow> Inr (Num (int_number t)) | _ \<Rightarrow> Inr v),
      tcheck = Some (\<lambda>v p. case v of Date t \<Rightarrow> None
                                   | _ \<Rightarrow> Some (Error ''Expected value to be a date'')),
      tbuiltins = (\<lambda>name. None)\<rparr>"

definition ex_types :: registry where
  "ex_types name =
     (if name = ''STRING'' then Some ex_string
      else if name = ''DATE'' then Some ex_date
      else None)"

definition ex_now :: int where
  "ex_now = 1600000000000"


definition isEmail :: "jsval \<Rightarrow> error option" where
  "isEmail v =
     (case v of
        Str s \<Rightarrow> if CHR ''@'' \<in> set s then None
                 else Some (Error ''Expected value to be an email address'')
      | _ \<Rightarrow> Some (Error ''Expected value to be an email address''))"

definition ex_email :: property where
  "ex_email =
     \<lparr>ptype = ''STRING'', required = True, pfun = (\<lambda>name. None),
      pvalidate = [(''notNull'', RuleParam (Bool True)), (''isEmail'', RuleFn isEmail)]\<rparr>"

text \<open>The rule \<^verbatim>\<open>isUUID\<close> of the example returns a boolean and never throws.\<close>

definition ex_accessToken :: property where
  "ex_accessToken =
     \<lparr>ptype = ''STRING'', required = True, pfun = (\<lambda>name. None),
      pvalidate = [(''notNull'', RuleParam (Bool True)), (''notEmpty'', RuleParam (Bool True)),
                   (''isUUID'', RuleFn (\<lambda>v. None))]\<rparr>"

definition ex_createdAt :: property where
  "ex_createdAt =
     \<lparr>ptype = ''DATE'', required = True,
      pfun = (\<lambda>name. if name = ''onCreate''
                      then Some (\<lambda>v. Inr (if truthy v then v else Date ex_now))
                      else None),
      pvalidate = []\<rparr>"

definition ex_updatedAt :: property where
  "ex_updatedAt =
     \<lparr>ptype = ''DATE'', required = True,
      pfun = (\<lambda>name. if name \<in> set [''onCreate'', ''onUpdate'', ''onUpsert'']
                      then Some (\<lambda>v. Inr (if truthy v then v else Date ex_now))
                      else None),
      pvalidate = []\<rparr>"

definition ex_lastActiveAt :: property where
  "ex_lastActiveAt =
     \<lparr>ptype = ''DATE'', required = False, pfun = (\<lambda>name. None), pvalidate = []\<rparr>"

definition ex_properties :: "property object" where
  "ex_properties =
     [(''email'', ex_email), (''accessToken'', ex_accessToken), (''createdAt'', ex_createdAt),
      (''updatedAt'', ex_updatedAt), (''lastActiveAt'', ex_lastActiveAt)]"

definition ex_keys :: keySchema where
  "ex_keys = \<lparr>hash_key = ''email'', range_key = Some ''createdAt''\<rparr>"

text \<open>
  A text property with a rule that names no built-in validator, after a rule function.
\<close>

definition ex_handle :: property where
  "ex_handle =
     \<lparr>ptype = ''STRING'', required = False, pfun = (\<lambda>name. None),
      pvalidate = [(''isEmail'', RuleFn isEmail), (''isShort'', RuleParam (Num (int_number 8)))]\<rparr>"

text \<open>A text property with a rule named as a member that every object inherits.\<close>

definition ex_label :: property where
  "ex_label =
     \<lparr>ptype = ''STRING'', required = False, pfun = (\<lambda>name. None),
      pvalidate = [(''toString'', RuleParam (Bool True))]\<rparr>"

text \<open>
  A text property with an \<^verbatim>\<open>onCreate\<close> hook that supplies a value and a
  \<^verbatim>\<open>set\<close> transform that returns nothing.
\<close>

definition ex_slug :: property where
  "ex_slug =
     \<lparr>ptype = ''STRING'', required = False,
      pfun = (\<lambda>name. if name = ''onCreate'' then Some (\<lambda>v. Inr (Str ''fresh''))
                      else if name = ''set'' then Some (\<lambda>v. Inr Undefined)
                      else None),
      pvalidate = []\<rparr>"

section \<open>Objects and sequencing\<close>

lemma map_of_obj_set: "map_of (obj_set k v obj) = (map_of obj)(k \<mapsto> v)"
  by (induction obj) (auto simp: fun_eq_iff)

lemma keys_obj_set_present: "hasOwnProperty obj k \<Longrightarrow> keys (obj_set k v obj) = keys obj"
  by (induction obj) (auto simp: hasOwnProperty_def keys_def)

lemma keys_obj_set_absent: "\<not> hasOwnProperty obj k \<Longrightarrow> keys (obj_set k v obj) = keys obj @ [k]"
  by (induction obj) (auto simp: hasOwnProperty_def keys_def)

lemma hasOwnProperty_obj_set: "hasOwnProperty (obj_set k v obj) k' = (k' = k \<or> hasOwnProperty obj k')"
  by (simp add: hasOwnProperty_def map_of_obj_set)

lemma obj_get_obj_set: "obj_get (obj_set k v obj) k' = (if k' = k then v else obj_get obj k')"
  by (simp add: obj_get_def map_of_obj_set)

lemma bind_Inr:
  "bind m f = (tr, Inr y) \<longleftrightarrow>
   (\<exists>tr1 x tr2. m = (tr1, Inr x) \<and> f x = (tr2, Inr y) \<and> tr = tr1 @ tr2)"
  by (cases m) (auto simp: bind_def split: sum.splits prod.splits)

lemma bind_Inl:
  "bind m f = (tr, Inl e) \<longleftrightarrow>
   (m = (tr, Inl e) \<or> (\<exists>tr1 x tr2. m = (tr1, Inr x) \<and> f x = (tr2, Inl e) \<and> tr = tr1 @ tr2))"
  by (cases m) (auto simp: bind_def split: sum.splits prod.splits)

lemma ret_eq: "ret x = (tr, r) \<longleftrightarrow> tr = [] \<and> r = Inr x"
  by (auto simp: ret_def)

lemma call_eq: "call ev c = (tr, r) \<longleftrightarrow> tr = [ev] \<and> c = r"
  by (auto simp: call_def)

lemma keys_assign_present: "hasOwnProperty data k \<Longrightarrow> keys (assign True k v data) = keys data"
  by (simp add: assign_def keys_obj_set_present)

lemma assign_absent_Undefined: "assign False k Undefined data = data"
  by (simp add: assign_def)

lemma type_get_step_absent: "type_get_step type False k p Undefined = ret Undefined"
  by (simp add: type_get_step_def split: option.splits)

lemma prop_get_step_absent: "prop_get_step False k p Undefined = ret Undefined"
  by (simp add: prop_get_step_def split: option.splits)

lemma prop_set_step_absent: "prop_set_step False k p Undefined = ret Undefined"
  by (simp add: prop_set_step_def split: option.splits)

lemma type_set_step_absent: "type_set_step type False k p Undefined = ret Undefined"
  by (simp add: type_set_step_def split: option.splits)

lemma ret_bind: "bind (ret x) f = f x"
  by (simp add: ret_def bind_def split: prod.splits)

lemma read_field_keys:
  assumes "read_field types kp data = (tr, Inr out)" shows "keys out = keys data"
proof (cases "hasOwnProperty data (fst kp)")
  case True
  with assms show ?thesis
    by (auto simp: read_field_def Let_def bind_Inr ret_eq keys_assign_present)
next
  case False
  with assms show ?thesis
    by (simp add: read_field_def Let_def type_get_step_absent prop_get_step_absent ret_bind
        assign_absent_Undefined ret_eq)
qed

lemma read_loop_keys:
  "read_loop types props data = (tr, Inr out) \<Longrightarrow> keys out = keys data"
proof (induction props arbitrary: data tr)
  case Nil
  then show ?case by (simp add: ret_eq)
next
  case (Cons kp rest)
  then show ?case by (auto simp: bind_Inr dest: read_field_keys)
qed

lemma hasOwnProperty_keys: "hasOwnProperty obj k \<longleftrightarrow> k \<in> set (keys obj)"
  by (simp add: hasOwnProperty_def keys_def map_of_eq_None_iff)

lemma bind_fst: "fst (bind m f) = fst m @ (case snd m of Inr x \<Rightarrow> fst (f x) | Inl e \<Rightarrow> [])"
  by (cases m) (auto simp: bind_def split: sum.splits prod.splits)

section \<open>Evaluating the example\<close>

lemmas ex_defs = ex_types_def ex_properties_def ex_email_def ex_accessToken_def ex_createdAt_def
  ex_updatedAt_def
  ex_lastActiveAt_def ex_string_def ex_date_def ex_now_def

lemmas run_defs = bind_def ret_def call_def check_def throw_def Let_def type_of_def
  hasOwnProperty_def obj_get_def assign_def keys_def

lemma ex_write:
  "formatWriteData ex_types ex_properties [(''email'', Str ''a@b.com'')] (Some ''onUpdate'')
   = ([HookCall ''updatedAt'' ''onUpdate'' Undefined, TypeSetCall ''updatedAt'' (Date ex_now)],
      Inr [(''email'', Str ''a@b.com''), (''updatedAt'', Num (int_number ex_now))])"
  by (simp add: formatWriteData_def write_field_def hook_step_def prop_set_step_def
      type_set_step_def ex_defs run_defs)

lemma number_int_100: "number_int (int_number 100) = Some 100"
  by (simp add: int_number_def digits.simps strip0.simps)

lemma ex_read:
  "formatReadData ex_types ex_properties [(''email'', Str ''a@b.com''), (''createdAt'', Num (int_number 100))]
   = ([TypeGetCall ''createdAt'' (Num (int_number 100))],
      Inr [(''email'', Str ''a@b.com''), (''createdAt'', Date 100)])"
  by (simp add: formatReadData_def read_field_def type_get_step_def prop_get_step_def
      ex_defs run_defs number_int_100)


section \<open>Presence of fields through the pipelines\<close>

lemma hook_step_absent:
  "hook_step fieldHook k p Undefined = (tr, Inr v) \<Longrightarrow> v \<noteq> Undefined \<Longrightarrow> hook_produces fieldHook p"
  by (auto simp: hook_step_def hook_produces_def ret_eq call_eq split: option.splits if_splits sum.splits)

lemma write_field_cases:
  assumes "write_field types fieldHook (k, p) data = (tr, Inr out)"
  shows "(hasOwnProperty data k \<and> keys out = keys data)
       \<or> (\<not> hasOwnProperty data k \<and> out = data)
       \<or> (\<not> hasOwnProperty data k \<and> hook_produces fieldHook p \<and> (\<exists>v. v \<noteq> Undefined \<and> out = obj_set k v data))"
proof (cases "hasOwnProperty data k")
  case True
  with assms show ?thesis
    by (auto simp: write_field_def Let_def bind_Inr ret_eq keys_assign_present)
next
  case False
  with assms obtain tr1 v1 tr2 v2 tr3 v3 where
    h: "hook_step fieldHook k p Undefined = (tr1, Inr v1)" and
    s: "prop_set_step False k p v1 = (tr2, Inr v2)" and
    t: "type_set_step (type_of types (Some p)) False k p v2 = (tr3, Inr v3)" and
    out: "out = assign False k v3 data"
    by (auto simp: write_field_def Let_def bind_Inr ret_eq)
  show ?thesis
  proof (cases "v1 = Undefined")
    case True
    with s have "v2 = Undefined" by (simp add: prop_set_step_absent ret_eq)
    with t have "v3 = Undefined" by (simp add: type_set_step_absent ret_eq)
    with out False show ?thesis by (simp add: assign_absent_Undefined)
  next
    case v1: False
    with h have "hook_produces fieldHook p" by (rule hook_step_absent)
    with out False show ?thesis by (auto simp: assign_def)
  qed
qed

lemma write_field_other:
  assumes "write_field types fieldHook (k, p) data = (tr, Inr out)" "k' \<noteq> k"
  shows "map_of out k' = map_of data k'"
proof -
  from assms(1) obtain v where "out = data \<or> out = obj_set k v data"
    by (auto simp: write_field_def Let_def bind_Inr ret_eq assign_def split: if_splits)
  with assms(2) show ?thesis by (auto simp: map_of_obj_set)
qed

lemma write_loop_other:
  "write_loop types fieldHook props data = (tr, Inr out) \<Longrightarrow> k' \<notin> set (keys props)
   \<Longrightarrow> map_of out k' = map_of data k'"
proof (induction props arbitrary: data tr)
  case Nil
  then show ?case by (simp add: ret_eq)
next
  case (Cons kp rest)
  from Cons.prems(1) obtain tr1 d1 tr2 where
    f: "write_field types fieldHook kp data = (tr1, Inr d1)" and
    l: "write_loop types fieldHook rest d1 = (tr2, Inr out)"
    by (auto simp: bind_Inr)
  from Cons.prems(2) have "k' \<noteq> fst kp" "k' \<notin> set (keys rest)" by (auto simp: keys_def)
  with Cons.IH[OF l] write_field_other[of types fieldHook "fst kp" "snd kp" data tr1 d1 k'] f
  show ?case by simp
qed

lemma write_loop_added:
  assumes "write_loop types fieldHook props data = (tr, Inr out)"
    and "distinct (keys props)"
    and "hasOwnProperty out k" and "\<not> hasOwnProperty data k"
  shows "obj_get out k \<noteq> Undefined \<and> (\<exists>p. map_of props k = Some p \<and> hook_produces fieldHook p)"
  using assms
proof (induction props arbitrary: data tr)
  case Nil
  then show ?case by (simp add: ret_eq)
next
  case (Cons kp rest)
  obtain k0 p0 where kp: "kp = (k0, p0)" by (cases kp)
  from Cons.prems(1) obtain tr1 d1 tr2 where
    f: "write_field types fieldHook (k0, p0) data = (tr1, Inr d1)" and
    l: "write_loop types fieldHook rest d1 = (tr2, Inr out)"
    by (auto simp: bind_Inr kp)
  from Cons.prems(2) have d: "distinct (keys rest)" and k0: "k0 \<notin> set (keys rest)"
    by (auto simp: keys_def kp)
  show ?case
  proof (cases "k = k0")
    case True
    from write_loop_other[OF l k0] have same: "map_of out k0 = map_of d1 k0" .
    from write_field_cases[OF f] Cons.prems(3,4) True same
    show ?thesis
      by (auto simp: kp hasOwnProperty_def obj_get_def map_of_obj_set)
  next
    case False
    from write_field_other[OF f False] Cons.prems(4)
    have "\<not> hasOwnProperty d1 k" by (simp add: hasOwnProperty_def)
    from Cons.IH[OF l d Cons.prems(3) this] False show ?thesis by (simp add: kp)
  qed
qed



text \<open>
  Claim C2. For every schema and every input document: a field of the write pipeline's
  output that the input document did not have belongs to a declared property whose named
  lifecycle hook returned a defined value for it, and it is never \<^verbatim>\<open>undefined\<close>; the
  read pipeline's output has exactly the fields of the raw record, in the same order.
  (The keys of the schema object are distinct, as the keys of an object are.)
\<close>

theorem presence_law:
  assumes "distinct (keys properties)"
  shows "(formatWriteData types properties data fieldHook = (tr, Inr out) \<longrightarrow>
            (\<forall>k. hasOwnProperty out k \<and> \<not> hasOwnProperty data k \<longrightarrow>
                 obj_get out k \<noteq> Undefined \<and>
                 (\<exists>p. map_of properties k = Some p \<and> hook_produces fieldHook p)))
       \<and> (formatReadData types properties raw = (tr', Inr out') \<longrightarrow> keys out' = keys raw)"
  using assms write_loop_added[of types fieldHook properties data tr out]
    read_loop_keys[of types properties raw tr' out']
  by (auto simp: formatWriteData_def formatReadData_def)


theorem presence_law_witness:
  "distinct (keys ex_properties)
   \<and> formatWriteData ex_types ex_properties [(''email'', Str ''a@b.com'')] (Some ''onUpdate'')
       = ([HookCall ''updatedAt'' ''onUpdate'' Undefined, TypeSetCall ''updatedAt'' (Date ex_now)],
          Inr [(''email'', Str ''a@b.com''), (''updatedAt'', Num (int_number ex_now))])
   \<and> hasOwnProperty [(''email'', Str ''a@b.com''), (''updatedAt'', Num (int_number ex_now))] ''updatedAt''
   \<and> \<not> hasOwnProperty [(''email'', Str ''a@b.com'')] ''updatedAt''
   \<and> obj_get [(''email'', Str ''a@b.com''), (''updatedAt'', Num (int_number ex_now))] ''updatedAt'' \<noteq> Undefined
   \<and> (\<exists>p. map_of ex_properties ''updatedAt'' = Some p \<and> hook_produces (Some ''onUpdate'') p)
   \<and> formatReadData ex_types ex_properties [(''email'', Str ''a@b.com''), (''createdAt'', Num (int_number 100))]
       = ([TypeGetCall ''createdAt'' (Num (int_number 100))],
          Inr [(''email'', Str ''a@b.com''), (''createdAt'', Date 100)])
   \<and> keys [(''email'', Str ''a@b.com''), (''createdAt'', Date 100)]
     = keys [(''email'', Str ''a@b.com''), (''createdAt'', Num (int_number 100))]"
proof -
  have d: "distinct (keys ex_properties)"
    by (simp add: ex_properties_def keys_def)
  have h: "hasOwnProperty [(''email'', Str ''a@b.com''), (''updatedAt'', Num (int_number ex_now))] ''updatedAt''
           \<and> \<not> hasOwnProperty [(''email'', Str ''a@b.com'')] ''updatedAt''"
    by (simp add: hasOwnProperty_def)
  from presence_law[OF d, where types = ex_types and data = "[(''email'', Str ''a@b.com'')]"
      and fieldHook = "Some ''onUpdate''"
      and tr = "[HookCall ''updatedAt'' ''onUpdate'' Undefined, TypeSetCall ''updatedAt'' (Date ex_now)]"
      and out = "[(''email'', Str ''a@b.com''), (''updatedAt'', Num (int_number ex_now))]"
      and raw = "[(''email'', Str ''a@b.com''), (''createdAt'', Num (int_number 100))]"
      and tr' = "[TypeGetCall ''createdAt'' (Num (int_number 100))]"
      and out' = "[(''email'', Str ''a@b.com''), (''createdAt'', Date 100)]"]
    ex_write ex_read h d
  show ?thesis by blast
qed

section \<open>The validation engine: first failure, order of checks\<close>

lemma rethrow_fst: "fst (rethrow prefix k m) = fst m"
  by (cases m) (auto simp: rethrow_def split: sum.splits)

lemma rethrow_snd:
  "snd (rethrow prefix k m) = (case snd m of Inl e \<Rightarrow> Inl (prefixed prefix k e) | Inr x \<Rightarrow> Inr x)"
  by (cases m) (auto simp: rethrow_def prefixed_def split: sum.splits)

lemma bind_snd: "snd (bind m f) = (case snd m of Inr x \<Rightarrow> snd (f x) | Inl e \<Rightarrow> Inl e)"
  by (cases m) (auto simp: bind_def split: sum.splits prod.splits)

lemma validate_field_fst: "fst (validate_field types props prefix kv) = fst (check_field types props kv)"
  by (simp add: validate_field_def rethrow_fst)

lemma validate_field_snd:
  "snd (validate_field types props prefix kv) =
   (case snd (check_field types props kv) of Inl e \<Rightarrow> Inl (prefixed prefix (fst kv) e) | Inr x \<Rightarrow> Inr x)"
  by (simp add: validate_field_def rethrow_snd)

lemma validate_loop_passed:
  assumes "\<forall>kv\<in>set pre. snd (check_field types props kv) = Inr ()"
  shows "fst (validate_loop types props prefix (pre @ rest)) =
           concat (map (\<lambda>kv. fst (check_field types props kv)) pre) @
           fst (validate_loop types props prefix rest)
       \<and> snd (validate_loop types props prefix (pre @ rest)) =
           snd (validate_loop types props prefix rest)"
  using assms
  by (induction pre) (simp_all add: bind_fst bind_snd validate_field_fst validate_field_snd)

text \<open>
  Claim C3. A field is invalid when the checks of its own iteration throw. For every
  document with an invalid field, whatever follows it (so also for every document with
  two or more invalid fields), the engine throws one error: the error of the first
  invalid field in the order of the document's keys, with its message prefixed by
  \<^verbatim>\<open>Error validating <prefix><key>: \<close>. The calls made are those of the fields up
  to and including that one; no later field is looked at.
\<close>

theorem validate_fail_fast:
  assumes "\<forall>kv\<in>set pre. snd (check_field types properties kv) = Inr ()"
    and "snd (check_field types properties (k, v)) = Inl e"
  shows "validateData types properties (pre @ (k, v) # post) prefix =
           (concat (map (\<lambda>kv. fst (check_field types properties kv)) (pre @ [(k, v)])),
            Inl (e\<lparr>message := ''Error validating '' @ prefix @ k @ '': '' @ message e\<rparr>))"
proof -
  have "fst (validate_loop types properties prefix ((k, v) # post)) = fst (check_field types properties (k, v))"
    using assms(2) by (simp add: bind_fst validate_field_fst validate_field_snd)
  moreover have "snd (validate_loop types properties prefix ((k, v) # post)) = Inl (prefixed prefix k e)"
    using assms(2) by (simp add: bind_snd validate_field_snd)
  ultimately show ?thesis
    using validate_loop_passed[OF assms(1), of prefix "(k, v) # post"]
    by (simp add: validateData_def prod_eq_iff prefixed_def)
qed


lemmas validate_defs = check_field_def structural_step_def typeValidators_def object_prototype_def
  isEmail_def Error_def

lemma ex_check_lastActiveAt:
  "check_field ex_types ex_properties (''lastActiveAt'', Date 5) =
     ([TypeCheckCall ''lastActiveAt'' (Date 5)], Inr ())"
  by (simp add: validate_defs ex_defs run_defs)

lemma ex_check_email:
  "check_field ex_types ex_properties (''email'', Str ''nope'') =
     ([TypeCheckCall ''email'' (Str ''nope''),
       BuiltinCall ''email'' ''notNull'' (Str ''nope'') (Bool True),
       RuleCall ''email'' ''isEmail'' (Str ''nope'')],
      Inl (Error ''Expected value to be an email address''))"
  by (simp add: validate_defs ex_defs run_defs)

lemma ex_check_updatedAt:
  "check_field ex_types ex_properties (''updatedAt'', Str ''yesterday'') =
     ([TypeCheckCall ''updatedAt'' (Str ''yesterday'')],
      Inl (Error ''Expected value to be a date''))"
  by (simp add: validate_defs ex_defs run_defs)

theorem validate_fail_fast_witness:
  "snd (check_field ex_types ex_properties (''lastActiveAt'', Date 5)) = Inr ()
   \<and> snd (check_field ex_types ex_properties (''email'', Str ''nope'')) =
       Inl (Error ''Expected value to be an email address'')
   \<and> snd (check_field ex_types ex_properties (''updatedAt'', Str ''yesterday'')) =
       Inl (Error ''Expected value to be a date'')
   \<and> validateData ex_types ex_properties
       [(''lastActiveAt'', Date 5), (''email'', Str ''nope''), (''updatedAt'', Str ''yesterday'')] [] =
       ([TypeCheckCall ''lastActiveAt'' (Date 5),
         TypeCheckCall ''email'' (Str ''nope''),
         BuiltinCall ''email'' ''notNull'' (Str ''nope'') (Bool True),
         RuleCall ''email'' ''isEmail'' (Str ''nope'')],
        Inl (Error ''Error validating email: Expected value to be an email address''))"
proof -
  have pre: "\<forall>kv\<in>set [(''lastActiveAt'', Date 5)]. snd (check_field ex_types ex_properties kv) = Inr ()"
    by (simp add: ex_check_lastActiveAt)
  have bad: "snd (check_field ex_types ex_properties (''email'', Str ''nope'')) =
       Inl (Error ''Expected value to be an email address'')"
    by (simp add: ex_check_email)
  from validate_fail_fast[OF pre bad, of "[(''updatedAt'', Str ''yesterday'')]" "[]"] pre bad
  show ?thesis
    by (simp add: ex_check_lastActiveAt ex_check_email ex_check_updatedAt Error_def)
qed

lemma check_fst: "fst (check ev r) = [ev]"
  by (simp add: check_def)

lemma rules_loop_events:
  "ev \<in> set (fst (rules_loop type k p v rules)) \<Longrightarrow> is_rule_call k v ev"
proof (induction rules)
  case Nil
  then show ?case by (simp add: ret_def)
next
  case (Cons r rules)
  obtain vkey rl where r: "r = (vkey, rl)" by (cases r)
  from Cons show ?case
    by (auto simp: r bind_fst check_def throw_def split: rule.splits option.splits sum.splits)
qed

lemma structural_step_fst:
  "fst (structural_step (type_of types (map_of props k)) k (map_of props k) v) =
     (if structural types props k = None then [] else [TypeCheckCall k v])"
  by (auto simp: structural_step_def structural_def ret_def check_def split: option.splits)


lemma check_field_fst:
  "\<exists>rs. fst (check_field types props (k, v)) =
          (if structural types props k = None then [] else [TypeCheckCall k v]) @ rs
        \<and> (\<forall>ev\<in>set rs. is_rule_call k v ev)"
  by (auto simp: check_field_def Let_def bind_fst structural_step_fst ret_def
      dest: rules_loop_events split: sum.splits option.splits)



lemma validate_loop_events:
  "ev \<in> set (fst (validate_loop types props prefix data)) \<Longrightarrow>
   \<exists>kv\<in>set data. ev \<in> set (fst (check_field types props kv))"
  by (induction data) (auto simp: ret_def bind_fst validate_field_fst split: sum.splits)










lemma check_field_undeclared:
  assumes "types ''null'' = None" "map_of props k = None"
  shows "check_field types props (k, v) = ([], Inr ())"
  using assms
  by (simp add: check_field_def structural_step_def type_of_def bind_def ret_def)

lemma validate_field_undeclared:
  assumes "types ''null'' = None" "map_of props k = None"
  shows "validate_field types props prefix (k, v) = ([], Inr ())"
  by (simp add: validate_field_def check_field_undeclared[where types = types, OF assms] rethrow_def)

lemma validate_loop_filter:
  assumes "types ''null'' = None"
  shows "validate_loop types props prefix data =
         validate_loop types props prefix (filter (\<lambda>kv. map_of props (fst kv) \<noteq> None) data)"
proof (induction data)
  case Nil
  then show ?case by simp
next
  case (Cons kv data)
  obtain k v where kv: "kv = (k, v)" by (cases kv)
  show ?case
  proof (cases "map_of props k")
    case None
    with Cons show ?thesis
      by (simp add: kv validate_field_undeclared[where types = types, OF assms None] bind_def)
  next
    case (Some p)
    with Cons show ?thesis by (simp add: kv)
  qed
qed

lemma check_field_validator_call:
  assumes "ev \<in> set (fst (check_field types props (k', v')))" "is_validator_call k ev"
  shows "k' = k"
proof -
  obtain rs where rs: "fst (check_field types props (k', v')) =
          (if structural types props k' = None then [] else [TypeCheckCall k' v']) @ rs"
        "\<forall>ev\<in>set rs. is_rule_call k' v' ev"
    using check_field_fst[of types props k' v'] by blast
  from assms(1) rs have "ev = TypeCheckCall k' v' \<or> is_rule_call k' v' ev"
    by (auto split: if_splits)
  with assms(2) show ?thesis by (cases ev) auto
qed

text \<open>
  Claim C10. With no type registered under the name \<^verbatim>\<open>null\<close> (the registry's kinds
  are text, number, boolean, timestamp, enumerated text, list and map), a field that the
  schema does not declare passes its iteration with no call and no error, no validator
  is ever called for it, and the engine does on the document exactly what it does on
  the document without its undeclared fields.
\<close>

theorem undeclared_fields_pass:
  assumes "types ''null'' = None"
  shows "(map_of properties k = None \<longrightarrow>
            validate_field types properties prefix (k, v) = ([], Inr ())
            \<and> (\<forall>ev\<in>set (fst (validateData types properties data prefix)). \<not> is_validator_call k ev))
       \<and> validateData types properties data prefix =
           validateData types properties
             (filter (\<lambda>kv. map_of properties (fst kv) \<noteq> None) data) prefix"
proof -
  have "\<not> is_validator_call k ev"
    if u: "map_of properties k = None" and ev: "ev \<in> set (fst (validateData types properties data prefix))"
    for ev
  proof
    assume c: "is_validator_call k ev"
    from ev have "ev \<in> set (fst (validate_loop types properties prefix
        (filter (\<lambda>kv. map_of properties (fst kv) \<noteq> None) data)))"
      using validate_loop_filter[where types = types and props = properties and prefix = prefix and data = data, OF assms] by (simp add: validateData_def)
    from validate_loop_events[OF this] obtain k' v' where
      kv: "map_of properties k' \<noteq> None" "ev \<in> set (fst (check_field types properties (k', v')))"
      by auto
    from check_field_validator_call[OF kv(2) c] kv(1) u show False by simp
  qed
  then show ?thesis
    using validate_field_undeclared[where types = types and props = properties and k = k and prefix = prefix and v = v, OF assms]
      validate_loop_filter[where types = types and props = properties and prefix = prefix and data = data, OF assms]
    by (auto simp: validateData_def)
qed

lemma ex_validate_undeclared:
  "validateData ex_types ex_properties [(''nickname'', Num (int_number 7)), (''lastActiveAt'', Date 5)] [] =
     ([TypeCheckCall ''lastActiveAt'' (Date 5)], Inr ())"
  by (simp add: validateData_def validate_field_def rethrow_def validate_defs ex_defs run_defs)

theorem undeclared_fields_pass_witness:
  "ex_types ''null'' = None
   \<and> map_of ex_properties ''nickname'' = None
   \<and> validate_field ex_types ex_properties [] (''nickname'', Num (int_number 7)) = ([], Inr ())
   \<and> fst (validateData ex_types ex_properties
           [(''nickname'', Num (int_number 7)), (''lastActiveAt'', Date 5)] [])
       = [TypeCheckCall ''lastActiveAt'' (Date 5)]
   \<and> \<not> is_validator_call ''nickname'' (TypeCheckCall ''lastActiveAt'' (Date 5))
   \<and> validateData ex_types ex_properties [(''nickname'', Num (int_number 7)), (''lastActiveAt'', Date 5)] [] =
       validateData ex_types ex_properties [(''lastActiveAt'', Date 5)] []"
proof -
  have n: "ex_types ''null'' = None" by (simp add: ex_types_def)
  have u: "map_of ex_properties ''nickname'' = None" by (simp add: ex_properties_def)
  have f: "filter (\<lambda>kv. map_of ex_properties (fst kv) \<noteq> None)
             [(''nickname'', Num (int_number 7)), (''lastActiveAt'', Date 5)] = [(''lastActiveAt'', Date 5)]"
    by (simp add: ex_properties_def)
  note th = undeclared_fields_pass[where types = ex_types and properties = ex_properties
      and k = "''nickname''" and prefix = "[]" and v = "Num (int_number 7)"
      and data = "[(''nickname'', Num (int_number 7)), (''lastActiveAt'', Date 5)]", OF n]
  from th u have a: "validate_field ex_types ex_properties [] (''nickname'', Num (int_number 7)) = ([], Inr ())"
    and b: "\<forall>ev\<in>set (fst (validateData ex_types ex_properties
           [(''nickname'', Num (int_number 7)), (''lastActiveAt'', Date 5)] [])).
         \<not> is_validator_call ''nickname'' ev"
    by blast+
  have t: "fst (validateData ex_types ex_properties
           [(''nickname'', Num (int_number 7)), (''lastActiveAt'', Date 5)] [])
       = [TypeCheckCall ''lastActiveAt'' (Date 5)]"
    by (simp add: ex_validate_undeclared)
  from b t have c: "\<not> is_validator_call ''nickname'' (TypeCheckCall ''lastActiveAt'' (Date 5))"
    by simp
  from th have "validateData ex_types ex_properties
        [(''nickname'', Num (int_number 7)), (''lastActiveAt'', Date 5)] [] =
      validateData ex_types ex_properties
        (filter (\<lambda>kv. map_of ex_properties (fst kv) \<noteq> None)
           [(''nickname'', Num (int_number 7)), (''lastActiveAt'', Date 5)]) []"
    by blast
  then have e: "validateData ex_types ex_properties
        [(''nickname'', Num (int_number 7)), (''lastActiveAt'', Date 5)] [] =
      validateData ex_types ex_properties [(''lastActiveAt'', Date 5)] []"
    by (simp only: f)
  from n u a t c e show ?thesis by blast
qed

section \<open>The validation engine: rules that name a built-in\<close>

lemma rules_loop_passed:
  assumes "snd (rules_loop type k p v rpre) = Inr ()"
  shows "fst (rules_loop type k p v (rpre @ rest)) =
           fst (rules_loop type k p v rpre) @ fst (rules_loop type k p v rest)
       \<and> snd (rules_loop type k p v (rpre @ rest)) = snd (rules_loop type k p v rest)"
  using assms
proof (induction rpre)
  case Nil
  then show ?case by (simp add: ret_def)
next
  case (Cons r rpre)
  obtain vkey rl where r: "r = (vkey, rl)" by (cases r)
  from Cons show ?case
    by (auto simp: r bind_fst bind_snd split: sum.splits)
qed

lemma rules_loop_unknown_fails:
  assumes "(vkey, RuleParam param) \<in> set rules" "typeValidators type vkey = None"
  shows "\<exists>e. snd (rules_loop type k p v rules) = Inl e"
  using assms(1)
proof (induction rules)
  case Nil
  then show ?case by simp
next
  case (Cons r rules)
  obtain vkey' rl where r: "r = (vkey', rl)" by (cases r)
  show ?case
  proof (cases "r = (vkey, RuleParam param)")
    case True
    with assms(2) show ?thesis by (simp add: bind_snd throw_def)
  next
    case False
    with Cons obtain e where "snd (rules_loop type k p v rules) = Inl e" by auto
    then show ?thesis by (auto simp: r bind_snd split: sum.splits)
  qed
qed

lemma check_field_unknown_fails:
  assumes "map_of props k = Some p" "(vkey, RuleParam param) \<in> set (pvalidate p)"
    "typeValidators (type_of types (Some p)) vkey = None"
  shows "\<exists>e. snd (check_field types props (k, v)) = Inl e"
  using assms rules_loop_unknown_fails[OF assms(2,3), of k p v]
  by (auto simp: check_field_def Let_def bind_snd split: sum.splits)

lemma validate_loop_fails:
  assumes "kv \<in> set data" "snd (check_field types props kv) = Inl e"
  shows "\<exists>e'. snd (validate_loop types props prefix data) = Inl e'"
  using assms(1)
proof (induction data)
  case Nil
  then show ?case by simp
next
  case (Cons x data)
  show ?case
  proof (cases "snd (validate_field types props prefix x)")
    case (Inl e')
    then show ?thesis by (simp add: bind_snd)
  next
    case (Inr u)
    with Cons assms(2) have "kv \<in> set data"
      by (auto simp: validate_field_snd)
    with Cons.IH Inr show ?thesis by (simp add: bind_snd)
  qed
qed

lemma rule_step_unknown:
  assumes "typeValidators type vkey = None"
  shows "rules_loop type k p v ((vkey, RuleParam param) # rpost) =
           ([], Inl (Error (''Expected validator '' @ vkey @ '' to be a function'')))"
  using assms by (simp add: bind_def throw_def)

lemma rule_step_builtin:
  assumes "typeValidators type vkey = Some g"
  shows "fst (rules_loop type k p v ((vkey, RuleParam param) # rpost)) =
           BuiltinCall k vkey v param #
             (case g v param p of None \<Rightarrow> fst (rules_loop type k p v rpost) | Some e \<Rightarrow> [])
       \<and> (\<forall>e. g v param p = Some e \<longrightarrow>
             snd (rules_loop type k p v ((vkey, RuleParam param) # rpost)) = Inl e)"
  using assms by (auto simp: bind_fst bind_snd check_def split: option.splits)

lemma check_field_reached:
  assumes "map_of props k = Some p" "pvalidate p = rpre @ rest"
    and "snd (structural_step (type_of types (Some p)) k (Some p) v) = Inr ()"
    and "snd (rules_loop (type_of types (Some p)) k p v rpre) = Inr ()"
  shows "snd (check_field types props (k, v)) = snd (rules_loop (type_of types (Some p)) k p v rest)
       \<and> set (fst (rules_loop (type_of types (Some p)) k p v rest))
           \<subseteq> set (fst (check_field types props (k, v)))"
  using assms rules_loop_passed[OF assms(4), of rest]
  by (auto simp: check_field_def Let_def bind_snd bind_fst)

lemma validate_loop_at:
  assumes "\<forall>kv\<in>set pre. snd (check_field types props kv) = Inr ()"
  shows "set (fst (check_field types props kv)) \<subseteq> set (fst (validate_loop types props prefix (pre @ kv # post)))
       \<and> (\<forall>e. snd (check_field types props kv) = Inl e \<longrightarrow>
             snd (validate_loop types props prefix (pre @ kv # post)) = Inl (prefixed prefix (fst kv) e))"
  using validate_loop_passed[OF assms, of prefix "kv # post"]
  by (auto simp: bind_fst bind_snd validate_field_fst validate_field_snd)

text \<open>
  Claim C8, amended. A declared field has, in its \<^verbatim>\<open>validate\<close> map, a rule whose value
  is not a function. When the lookup of the rule's name among the type's built-in
  validators finds no function (the type has none of that name, and the name is not
  that of a member that every object inherits, such as \<^verbatim>\<open>toString\<close>), the engine
  fails on every document that holds the field; the error is the one of the unknown
  validator when the engine gets as far as the rule (the earlier fields, the structural
  validator and the earlier rules of the field pass), and otherwise the error of the
  check that failed first. When the lookup finds a function and the rule is reached,
  the function is called with the field's value, the rule's value and the property
  spec, and an error it throws is the engine's error, prefixed.
\<close>

theorem unknown_validator_rule:
  assumes "map_of properties k = Some p"
    and "pvalidate p = rpre @ (vkey, RuleParam param) # rpost"
  shows "(typeValidators (type_of types (Some p)) vkey = None \<longrightarrow>
            (\<exists>e. snd (validateData types properties (pre @ (k, v) # post) prefix) = Inl e)
          \<and> (rule_reached types properties pre k v p rpre \<longrightarrow>
               snd (validateData types properties (pre @ (k, v) # post) prefix)
                 = Inl (unknown_validator prefix k vkey)))
       \<and> (\<forall>g. typeValidators (type_of types (Some p)) vkey = Some g
              \<and> rule_reached types properties pre k v p rpre \<longrightarrow>
            BuiltinCall k vkey v param
              \<in> set (fst (validateData types properties (pre @ (k, v) # post) prefix))
          \<and> (\<forall>e. g v param p = Some e \<longrightarrow>
                snd (validateData types properties (pre @ (k, v) # post) prefix)
                  = Inl (prefixed prefix k e)))"
proof (intro conjI impI allI)
  assume u: "typeValidators (type_of types (Some p)) vkey = None"
  from assms(2) have "(vkey, RuleParam param) \<in> set (pvalidate p)" by simp
  from check_field_unknown_fails[OF assms(1) this u, of v] obtain e where
    "snd (check_field types properties (k, v)) = Inl e" by blast
  from validate_loop_fails[OF _ this, of "pre @ (k, v) # post" prefix]
  show "\<exists>e. snd (validateData types properties (pre @ (k, v) # post) prefix) = Inl e"
    by (simp add: validateData_def)
next
  assume u: "typeValidators (type_of types (Some p)) vkey = None"
    and r: "rule_reached types properties pre k v p rpre"
  from r have pre: "\<forall>kv\<in>set pre. snd (check_field types properties kv) = Inr ()"
    and st: "snd (structural_step (type_of types (Some p)) k (Some p) v) = Inr ()"
    and rl: "snd (rules_loop (type_of types (Some p)) k p v rpre) = Inr ()"
    by (auto simp: rule_reached_def list_all_iff)
  from check_field_reached[OF assms(1,2) st rl] rule_step_unknown[OF u, of k p v param rpost]
  have "snd (check_field types properties (k, v)) =
          Inl (Error (''Expected validator '' @ vkey @ '' to be a function''))" by simp
  with validate_loop_at[OF pre, of "(k, v)" prefix post]
  show "snd (validateData types properties (pre @ (k, v) # post) prefix)
          = Inl (unknown_validator prefix k vkey)"
    by (simp add: validateData_def unknown_validator_def prefixed_def Error_def)
next
  fix g
  assume h: "typeValidators (type_of types (Some p)) vkey = Some g
              \<and> rule_reached types properties pre k v p rpre"
  then have pre: "\<forall>kv\<in>set pre. snd (check_field types properties kv) = Inr ()"
    and st: "snd (structural_step (type_of types (Some p)) k (Some p) v) = Inr ()"
    and rl: "snd (rules_loop (type_of types (Some p)) k p v rpre) = Inr ()"
    and g: "typeValidators (type_of types (Some p)) vkey = Some g"
    by (auto simp: rule_reached_def list_all_iff)
  from rule_step_builtin[OF g, of k p v param rpost] check_field_reached[OF assms(1,2) st rl]
  have "BuiltinCall k vkey v param \<in> set (fst (check_field types properties (k, v)))"
    by auto
  with validate_loop_at[OF pre, of "(k, v)" prefix post]
  show "BuiltinCall k vkey v param
          \<in> set (fst (validateData types properties (pre @ (k, v) # post) prefix))"
    by (auto simp: validateData_def)
  fix e
  assume e: "g v param p = Some e"
  with rule_step_builtin[OF g, of k p v param rpost] check_field_reached[OF assms(1,2) st rl]
  have "snd (check_field types properties (k, v)) = Inl e" by simp
  with validate_loop_at[OF pre, of "(k, v)" prefix post]
  show "snd (validateData types properties (pre @ (k, v) # post) prefix) = Inl (prefixed prefix k e)"
    by (simp add: validateData_def)
qed

lemmas validate_run_defs = validateData_def validate_field_def rethrow_def check_field_def
  structural_step_def typeValidators_def object_prototype_def isEmail_def Error_def

lemma ex_validate_handle_email:
  "validateData ex_types [(''handle'', ex_handle)] [(''handle'', Str ''a@b'')] [] =
     ([TypeCheckCall ''handle'' (Str ''a@b''), RuleCall ''handle'' ''isEmail'' (Str ''a@b'')],
      Inl (Error ''Error validating handle: Expected validator isShort to be a function''))"
  by (simp add: validate_run_defs ex_handle_def ex_defs run_defs)

lemma ex_validate_handle_text:
  "validateData ex_types [(''handle'', ex_handle)] [(''handle'', Str ''nope'')] [] =
     ([TypeCheckCall ''handle'' (Str ''nope''), RuleCall ''handle'' ''isEmail'' (Str ''nope'')],
      Inl (Error ''Error validating handle: Expected value to be an email address''))"
  by (simp add: validate_run_defs ex_handle_def ex_defs run_defs)

lemma ex_handle_isShort:
  "typeValidators (type_of ex_types (Some ex_handle)) ''isShort'' = None"
  by (simp add: typeValidators_def object_prototype_def type_of_def ex_handle_def ex_types_def
      ex_string_def)

lemma ex_handle_reached:
  "rule_reached ex_types [(''handle'', ex_handle)] [] ''handle'' (Str ''a@b'') ex_handle
     [(''isEmail'', RuleFn isEmail)]"
  by (simp add: rule_reached_def structural_step_def isEmail_def type_of_def ex_handle_def
      ex_types_def ex_string_def bind_def ret_def check_def)

lemma ex_accessToken_reached:
  "rule_reached ex_types ex_properties [(''email'', Str ''a@b'')] ''accessToken'' (Str [])
     ex_accessToken [(''notNull'', RuleParam (Bool True))]"
  by (simp add: rule_reached_def validate_run_defs ex_defs run_defs)

theorem unknown_validator_rule_witness:
  "map_of [(''handle'', ex_handle)] ''handle'' = Some ex_handle
   \<and> pvalidate ex_handle = [(''isEmail'', RuleFn isEmail)] @ (''isShort'', RuleParam (Num (int_number 8))) # []
   \<and> typeValidators (type_of ex_types (Some ex_handle)) ''isShort'' = None
   \<and> rule_reached ex_types [(''handle'', ex_handle)] [] ''handle'' (Str ''a@b'') ex_handle
        [(''isEmail'', RuleFn isEmail)]
   \<and> snd (validateData ex_types [(''handle'', ex_handle)] ([] @ (''handle'', Str ''a@b'') # []) [])
        = Inl (unknown_validator [] ''handle'' ''isShort'')
   \<and> map_of ex_properties ''accessToken'' = Some ex_accessToken
   \<and> pvalidate ex_accessToken =
        [(''notNull'', RuleParam (Bool True))] @ (''notEmpty'', RuleParam (Bool True))
          # [(''isUUID'', RuleFn (\<lambda>v. None))]
   \<and> rule_reached ex_types ex_properties [(''email'', Str ''a@b'')] ''accessToken'' (Str [])
        ex_accessToken [(''notNull'', RuleParam (Bool True))]
   \<and> BuiltinCall ''accessToken'' ''notEmpty'' (Str []) (Bool True)
        \<in> set (fst (validateData ex_types ex_properties
                       ([(''email'', Str ''a@b'')] @ (''accessToken'', Str []) # []) []))
   \<and> snd (validateData ex_types ex_properties
              ([(''email'', Str ''a@b'')] @ (''accessToken'', Str []) # []) [])
        = Inl (prefixed [] ''accessToken'' (Error ''Expected value to be not empty''))"
proof -
  have m1: "map_of [(''handle'', ex_handle)] ''handle'' = Some ex_handle" by simp
  have v1: "pvalidate ex_handle =
      [(''isEmail'', RuleFn isEmail)] @ (''isShort'', RuleParam (Num (int_number 8))) # []"
    by (simp add: ex_handle_def)
  have m2: "map_of ex_properties ''accessToken'' = Some ex_accessToken"
    by (simp add: ex_properties_def)
  have v2: "pvalidate ex_accessToken =
        [(''notNull'', RuleParam (Bool True))] @ (''notEmpty'', RuleParam (Bool True))
          # [(''isUUID'', RuleFn (\<lambda>v. None))]"
    by (simp add: ex_accessToken_def)
  have g: "typeValidators (type_of ex_types (Some ex_accessToken)) ''notEmpty'' =
      Some (\<lambda>v param p. if v = Str [] then Some (Error ''Expected value to be not empty'') else None)"
    by (simp add: typeValidators_def type_of_def ex_accessToken_def ex_types_def ex_string_def)
  from unknown_validator_rule[OF m1 v1, where types = ex_types and pre = "[]"
      and v = "Str ''a@b''" and post = "[]" and prefix = "[]"]
    ex_handle_isShort ex_handle_reached
  have a: "snd (validateData ex_types [(''handle'', ex_handle)] ([] @ (''handle'', Str ''a@b'') # []) [])
        = Inl (unknown_validator [] ''handle'' ''isShort'')"
    by blast
  from unknown_validator_rule[OF m2 v2, where types = ex_types and pre = "[(''email'', Str ''a@b'')]"
      and v = "Str []" and post = "[]" and prefix = "[]"]
    g ex_accessToken_reached
  have b: "BuiltinCall ''accessToken'' ''notEmpty'' (Str []) (Bool True)
        \<in> set (fst (validateData ex_types ex_properties
                       ([(''email'', Str ''a@b'')] @ (''accessToken'', Str []) # []) []))
   \<and> snd (validateData ex_types ex_properties
              ([(''email'', Str ''a@b'')] @ (''accessToken'', Str []) # []) [])
        = Inl (prefixed [] ''accessToken'' (Error ''Expected value to be not empty''))"
    by simp
  from m1 v1 m2 v2 a b ex_handle_isShort ex_handle_reached ex_accessToken_reached
  show ?thesis by blast
qed

text \<open>
  The claim as stated fails where an earlier rule of the same field throws first: the
  engine reports that rule's error, not the unknown validator.
\<close>

theorem unknown_validator_counterexample:
  "map_of [(''handle'', ex_handle)] ''handle'' = Some ex_handle
   \<and> (''isShort'', RuleParam (Num (int_number 8))) \<in> set (pvalidate ex_handle)
   \<and> typeValidators (type_of ex_types (Some ex_handle)) ''isShort'' = None
   \<and> validateData ex_types [(''handle'', ex_handle)] [(''handle'', Str ''nope'')] [] =
       ([TypeCheckCall ''handle'' (Str ''nope''), RuleCall ''handle'' ''isEmail'' (Str ''nope'')],
        Inl (Error ''Error validating handle: Expected value to be an email address''))
   \<and> Error ''Error validating handle: Expected value to be an email address''
       \<noteq> unknown_validator [] ''handle'' ''isShort''"
  by (simp add: ex_validate_handle_text ex_handle_isShort)
    (simp add: ex_handle_def unknown_validator_def Error_def)

text \<open>
  A rule named \<^verbatim>\<open>toString\<close> finds the inherited function, which accepts every
  value: the engine does not report an unknown validator for it.
\<close>

lemma inherited_validator_found:
  "typeValidators (type_of ex_types (Some ex_label)) ''toString'' \<noteq> None
   \<and> tbuiltins ex_string ''toString'' = None
   \<and> validateData ex_types [(''label'', ex_label)] [(''label'', Str ''x'')] [] =
       ([TypeCheckCall ''label'' (Str ''x''),
         BuiltinCall ''label'' ''toString'' (Str ''x'') (Bool True)],
        Inr ())"
  by (simp add: validate_run_defs ex_label_def ex_defs run_defs)

section \<open>The write pipeline: hooks on absent fields\<close>

lemma bind_assoc: "bind (bind m f) g = bind m (\<lambda>x. bind (f x) g)"
  by (cases m) (auto simp: bind_def split: sum.splits prod.splits)

lemma write_loop_append:
  "write_loop types fh (ps1 @ ps2) data =
     bind (write_loop types fh ps1 data) (write_loop types fh ps2)"
proof (induction ps1 arbitrary: data)
  case Nil
  show ?case by (simp add: ret_bind)
next
  case (Cons kp ps1)
  have "write_loop types fh (ps1 @ ps2) =
          (\<lambda>x. bind (write_loop types fh ps1 x) (write_loop types fh ps2))"
    using Cons.IH by (intro ext)
  then show ?case by (simp add: bind_assoc)
qed

lemma write_loop_split:
  assumes "write_loop types fh (ps1 @ kp # ps2) data = (tr, Inr out)"
  obtains tr1 d1 tr2 d2 tr3 where
    "write_loop types fh ps1 data = (tr1, Inr d1)"
    "write_field types fh kp d1 = (tr2, Inr d2)"
    "write_loop types fh ps2 d2 = (tr3, Inr out)"
    "tr = tr1 @ tr2 @ tr3"
  using assms by (auto simp: write_loop_append bind_Inr)

lemma obj_get_absent: "\<not> hasOwnProperty d k \<Longrightarrow> obj_get d k = Undefined"
  by (simp add: hasOwnProperty_def obj_get_def)

lemma write_field_hook:
  assumes "write_field types (Some h) (k, p) d1 = (tr, Inr d2)" "h \<noteq> []" "pfun p h = Some f"
  shows "HookCall k h (obj_get d1 k) \<in> set tr"
  using assms
  by (auto simp: write_field_def Let_def bind_Inr hook_step_def call_eq obj_get_absent)

lemma write_field_absent:
  assumes "write_field types (Some h) (k, p) d1 = (tr, Inr d2)" "h \<noteq> []" "pfun p h = Some f"
    and "\<not> hasOwnProperty d1 k"
  shows "\<exists>v1 tr2 v2 tr3 v3. f Undefined = Inr v1
           \<and> prop_set_step False k p v1 = (tr2, Inr v2)
           \<and> type_set_step (type_of types (Some p)) False k p v2 = (tr3, Inr v3)
           \<and> hasOwnProperty d2 k = (v3 \<noteq> Undefined) \<and> obj_get d2 k = v3"
proof -
  from assms obtain v1 tr2 v2 tr3 v3 where
    h: "f Undefined = Inr v1" and
    s: "prop_set_step False k p v1 = (tr2, Inr v2)" and
    t: "type_set_step (type_of types (Some p)) False k p v2 = (tr3, Inr v3)" and
    d2: "d2 = assign False k v3 d1"
    by (auto simp: write_field_def Let_def bind_Inr hook_step_def call_eq ret_eq)
  from d2 assms(4) have "hasOwnProperty d2 k = (v3 \<noteq> Undefined) \<and> obj_get d2 k = v3"
    by (auto simp: assign_def hasOwnProperty_obj_set obj_get_obj_set obj_get_absent)
  with h s t show ?thesis by blast
qed

text \<open>
  Claim C9, amended. When the write pipeline completes, the named lifecycle hook of every
  property that declares it has been called with the field's value in the input
  document, which is \<^verbatim>\<open>undefined\<close> for an absent field. A previously absent field
  is in the output document exactly when the value that the hook's result becomes under
  the property-level and then the type-level set transform (each applied only to a
  truthy value) is defined, and the field then holds that value.
\<close>

theorem hook_on_absent_field:
  assumes "formatWriteData types properties data (Some h) = (tr, Inr out)"
    and "distinct (keys properties)"
    and "map_of properties k = Some p"
    and "h \<noteq> []" and "pfun p h = Some f"
  shows "HookCall k h (obj_get data k) \<in> set tr
       \<and> (\<not> hasOwnProperty data k \<longrightarrow>
            (\<exists>v1 tr2 v2 tr3 v3. f Undefined = Inr v1
               \<and> prop_set_step False k p v1 = (tr2, Inr v2)
               \<and> type_set_step (type_of types (Some p)) False k p v2 = (tr3, Inr v3)
               \<and> hasOwnProperty out k = (v3 \<noteq> Undefined) \<and> obj_get out k = v3))"
proof -
  from assms(3) have "(k, p) \<in> set properties" by (rule map_of_SomeD)
  then obtain ps1 ps2 where ps: "properties = ps1 @ (k, p) # ps2"
    by (auto dest: split_list)
  with assms(2) have k1: "k \<notin> set (keys ps1)" and k2: "k \<notin> set (keys ps2)"
    by (auto simp: keys_def)
  from assms(1) ps obtain tr1 d1 tr2 d2 tr3 where
    l1: "write_loop types (Some h) ps1 data = (tr1, Inr d1)" and
    f: "write_field types (Some h) (k, p) d1 = (tr2, Inr d2)" and
    l2: "write_loop types (Some h) ps2 d2 = (tr3, Inr out)" and
    tr: "tr = tr1 @ tr2 @ tr3"
    by (auto simp: formatWriteData_def elim: write_loop_split)
  from write_loop_other[OF l1 k1] have same1: "map_of d1 k = map_of data k" .
  from write_loop_other[OF l2 k2] have same2: "map_of out k = map_of d2 k" .
  from same1 have g1: "obj_get d1 k = obj_get data k" "hasOwnProperty d1 k = hasOwnProperty data k"
    by (simp_all add: obj_get_def hasOwnProperty_def)
  from same2 have g2: "obj_get out k = obj_get d2 k" "hasOwnProperty out k = hasOwnProperty d2 k"
    by (simp_all add: obj_get_def hasOwnProperty_def)
  from write_field_hook[OF f assms(4,5)] tr g1 have "HookCall k h (obj_get data k) \<in> set tr"
    by simp
  moreover have "\<exists>v1 tr2 v2 tr3 v3. f Undefined = Inr v1
               \<and> prop_set_step False k p v1 = (tr2, Inr v2)
               \<and> type_set_step (type_of types (Some p)) False k p v2 = (tr3, Inr v3)
               \<and> hasOwnProperty out k = (v3 \<noteq> Undefined) \<and> obj_get out k = v3"
    if "\<not> hasOwnProperty data k"
    using write_field_absent[OF f assms(4,5)] that g1 g2 by simp
  ultimately show ?thesis by blast
qed

lemmas write_run_defs = formatWriteData_def write_field_def hook_step_def prop_set_step_def
  type_set_step_def

lemma ex_write_slug:
  "formatWriteData ex_types [(''slug'', ex_slug)] [] (Some ''onCreate'') =
     ([HookCall ''slug'' ''onCreate'' Undefined, PropSetCall ''slug'' (Str ''fresh'')], Inr [])"
  by (simp add: write_run_defs ex_slug_def ex_defs run_defs)

theorem hook_on_absent_field_witness:
  "distinct (keys ex_properties)
   \<and> formatWriteData ex_types ex_properties [(''email'', Str ''a@b.com'')] (Some ''onUpdate'')
       = ([HookCall ''updatedAt'' ''onUpdate'' Undefined, TypeSetCall ''updatedAt'' (Date ex_now)],
          Inr [(''email'', Str ''a@b.com''), (''updatedAt'', Num (int_number ex_now))])
   \<and> pfun ex_updatedAt ''onUpdate'' = Some (\<lambda>v. Inr (if truthy v then v else Date ex_now))
   \<and> map_of ex_properties ''updatedAt'' = Some ex_updatedAt
   \<and> \<not> hasOwnProperty [(''email'', Str ''a@b.com'')] ''updatedAt''
   \<and> HookCall ''updatedAt'' ''onUpdate'' Undefined
       \<in> set [HookCall ''updatedAt'' ''onUpdate'' Undefined, TypeSetCall ''updatedAt'' (Date ex_now)]
   \<and> hasOwnProperty [(''email'', Str ''a@b.com''), (''updatedAt'', Num (int_number ex_now))] ''updatedAt''
   \<and> obj_get [(''email'', Str ''a@b.com''), (''updatedAt'', Num (int_number ex_now))] ''updatedAt'' = Num (int_number ex_now)"
proof -
  have d: "distinct (keys ex_properties)"
    by (simp add: ex_properties_def keys_def)
  have m: "map_of ex_properties ''updatedAt'' = Some ex_updatedAt"
    by (simp add: ex_properties_def)
  have n: "''onUpdate'' \<noteq> []" by simp
  have f: "pfun ex_updatedAt ''onUpdate'' = Some (\<lambda>v. Inr (if truthy v then v else Date ex_now))"
    by (simp add: ex_updatedAt_def)
  have a: "\<not> hasOwnProperty [(''email'', Str ''a@b.com'')] ''updatedAt''"
    by (simp add: hasOwnProperty_def)
  from hook_on_absent_field[OF ex_write d m n f] a
  show ?thesis
    by (simp add: d m f ex_write obj_get_def hasOwnProperty_def)
qed

text \<open>
  The claim as stated fails where the hook returns a defined value and a set transform
  turns it into \<^verbatim>\<open>undefined\<close>: the field is not added.
\<close>

theorem hook_value_dropped_counterexample:
  "hook_produces (Some ''onCreate'') ex_slug
   \<and> \<not> hasOwnProperty [] ''slug''
   \<and> formatWriteData ex_types [(''slug'', ex_slug)] [] (Some ''onCreate'') =
       ([HookCall ''slug'' ''onCreate'' Undefined, PropSetCall ''slug'' (Str ''fresh'')], Inr [])
   \<and> \<not> hasOwnProperty ([] :: jsval object) ''slug''"
  by (simp add: ex_write_slug) (simp add: hook_produces_def ex_slug_def hasOwnProperty_def)

section \<open>The key marshaller: transforms and tags\<close>







section \<open>Numbers as strings\<close>







































section \<open>The key marshaller: the encoded key\<close>










section \<open>The order of the steps of an update\<close>

lemma assertRequiredUpdateProps_fst: "fst (assertRequiredUpdateProps props update) = []"
  by (induction props update rule: assertRequiredUpdateProps.induct)
    (simp_all add: ret_def throw_def)

lemma is_rule_call_order: "is_rule_call k v ev \<Longrightarrow> order_in_code ev = 1"
  by (cases ev) auto

lemma check_field_order:
  assumes "ev \<in> set (fst (check_field types props kv))"
  shows "order_in_code ev = 1"
proof -
  obtain rs where rs: "fst (check_field types props (fst kv, snd kv)) =
          (if structural types props (fst kv) = None then [] else [TypeCheckCall (fst kv) (snd kv)]) @ rs"
        "\<forall>ev\<in>set rs. is_rule_call (fst kv) (snd kv) ev"
    using check_field_fst[of types props "fst kv" "snd kv"] by blast
  from assms rs have "ev = TypeCheckCall (fst kv) (snd kv) \<or> is_rule_call (fst kv) (snd kv) ev"
    by (auto split: if_splits)
  then show ?thesis by (auto dest: is_rule_call_order)
qed

lemma validateData_order:
  "ev \<in> set (fst (validateData types props data prefix)) \<Longrightarrow> order_in_code ev = 1"
  unfolding validateData_def
  by (blast dest: validate_loop_events check_field_order)

lemma hook_step_order: "ev \<in> set (fst (hook_step fh k p v)) \<Longrightarrow> order_in_code ev = 2"
  by (auto simp: hook_step_def call_def ret_def split: option.splits if_splits)

lemma prop_set_step_order: "ev \<in> set (fst (prop_set_step b k p v)) \<Longrightarrow> order_in_code ev = 2"
  by (auto simp: prop_set_step_def call_def ret_def split: option.splits if_splits)

lemma type_set_step_order: "ev \<in> set (fst (type_set_step t b k p v)) \<Longrightarrow> order_in_code ev = 2"
  by (auto simp: type_set_step_def call_def ret_def split: option.splits if_splits)

lemma bind_events:
  "ev \<in> set (fst (bind m f)) \<Longrightarrow> ev \<in> set (fst m) \<or> (\<exists>x. ev \<in> set (fst (f x)))"
  by (auto simp: bind_fst split: sum.splits)

lemma write_field_order:
  assumes "ev \<in> set (fst (write_field types fh kp data))"
  shows "order_in_code ev = 2"
proof -
  from assms have "(\<exists>v. ev \<in> set (fst (hook_step fh (fst kp) (snd kp) v)))
      \<or> (\<exists>b v. ev \<in> set (fst (prop_set_step b (fst kp) (snd kp) v)))
      \<or> (\<exists>t b v. ev \<in> set (fst (type_set_step t b (fst kp) (snd kp) v)))"
    unfolding write_field_def Let_def
    by (auto dest!: bind_events simp: ret_def)
  then show ?thesis
    by (auto dest: hook_step_order prop_set_step_order type_set_step_order)
qed

lemma write_loop_order:
  "ev \<in> set (fst (write_loop types fh props data)) \<Longrightarrow> order_in_code ev = 2"
proof (induction props arbitrary: data)
  case Nil
  then show ?case by (simp add: ret_def)
next
  case (Cons kp props)
  from bind_events[OF Cons.prems[simplified]] Cons.IH show ?case
    by (auto dest: write_field_order)
qed

lemma formatUpdateData_order:
  "ev \<in> set (fst (formatUpdateData types props update)) \<Longrightarrow> order_in_code ev = 2"
  by (auto simp: formatUpdateData_def formatWriteData_def dest: write_loop_order)

lemma sorted_const: "\<forall>x\<in>set xs. f x = (c::nat) \<Longrightarrow> sorted (map f xs)"
  by (induction xs) auto

lemma sorted_phases:
  assumes "\<forall>ev\<in>set a. order_in_code ev = 1" "\<forall>ev\<in>set b. order_in_code ev = 2"
  shows "sorted (map order_in_code (Step ''assertRequiredUpdateProps'' # Step ''validateData'' # a))"
    and "sorted (map order_in_code
          (Step ''assertRequiredUpdateProps'' # Step ''validateData'' # a @ Step ''formatUpdateData'' # b))"
  using assms sorted_const[OF assms(1)] sorted_const[OF assms(2)]
  by (auto simp: sorted_append)

lemma steps_trace:
  assumes "hasOwnProperty wher (hash_key schema)"
    and "(case range_key schema of
            Some r \<Rightarrow> if r \<noteq> [] \<and> \<not> hasOwnProperty wher r then Some r else None
          | None \<Rightarrow> None) = None"
  shows "fst (updateDocument_steps types schema props update wher) =
           Step ''assertRequiredUpdateProps'' #
             (case snd (assertRequiredUpdateProps props update) of
                Inl e \<Rightarrow> []
              | Inr u \<Rightarrow>
                  Step ''validateData'' # fst (validateData types props update []) @
                    (case snd (validateData types props update []) of
                       Inl e \<Rightarrow> []
                     | Inr u \<Rightarrow>
                         Step ''formatUpdateData'' # fst (formatUpdateData types props update)))
       \<and> snd (updateDocument_steps types schema props update wher) =
           (case snd (assertRequiredUpdateProps props update) of
              Inl e \<Rightarrow> Inl e
            | Inr u \<Rightarrow>
                (case snd (validateData types props update []) of
                   Inl e \<Rightarrow> Inl e
                 | Inr u \<Rightarrow> snd (formatUpdateData types props update)))"
  using assms
  by (simp add: updateDocument_steps_def bind_fst bind_snd call_def assertRequiredUpdateProps_fst
      split: sum.splits)

lemma steps_trace_rejected:
  assumes "\<not> (hasOwnProperty wher (hash_key schema)
    \<and> (case range_key schema of
            Some r \<Rightarrow> if r \<noteq> [] \<and> \<not> hasOwnProperty wher r then Some r else None
          | None \<Rightarrow> None) = None)"
  shows "fst (updateDocument_steps types schema props update wher) = []
       \<and> (\<exists>e. snd (updateDocument_steps types schema props update wher) = Inl e)"
  using assms
  by (auto simp: updateDocument_steps_def throw_def split: option.splits)

lemma is_validator_call_order: "is_validator_call k ev \<Longrightarrow> order_in_code ev = 1"
  by (cases ev) auto

lemma validateData_keys:
  assumes "ev \<in> set (fst (validateData types props data prefix))" "is_validator_call k ev"
  shows "hasOwnProperty data k"
proof -
  from assms(1) obtain k' v' where
    kv: "(k', v') \<in> set data" "ev \<in> set (fst (check_field types props (k', v')))"
    unfolding validateData_def by (auto dest: validate_loop_events)
  from check_field_validator_call[OF kv(2) assms(2)] kv(1) show ?thesis
    by (auto simp: hasOwnProperty_keys keys_def intro: rev_image_eqI)
qed

text \<open>
  Claim C6, amended. The calls of an update come in this order: the required-update
  assertion, then the validation engine, then the write-pipeline subset restricted to
  the update hooks and the set transforms. Every validator call is for a field of the
  partial document as the caller supplied it. When the three steps succeed, the
  validation engine has run on the caller's document, before any hook or transform, and
  the pipeline has then run on that same document.
\<close>

theorem update_steps_order:
  "sorted (map order_in_code (fst (updateDocument_steps types schema properties update wher)))
   \<and> (\<forall>k ev. ev \<in> set (fst (updateDocument_steps types schema properties update wher))
          \<and> is_validator_call k ev \<longrightarrow> hasOwnProperty update k)
   \<and> (snd (updateDocument_steps types schema properties update wher) = Inr out \<longrightarrow>
        fst (updateDocument_steps types schema properties update wher) =
          [Step ''assertRequiredUpdateProps'', Step ''validateData'']
          @ fst (validateData types properties update [])
          @ [Step ''formatUpdateData'']
          @ fst (formatUpdateData types properties update)
        \<and> snd (validateData types properties update []) = Inr ()
        \<and> snd (formatUpdateData types properties update) = Inr out)"
proof (cases "hasOwnProperty wher (hash_key schema)
    \<and> (case range_key schema of
            Some r \<Rightarrow> if r \<noteq> [] \<and> \<not> hasOwnProperty wher r then Some r else None
          | None \<Rightarrow> None) = None")
  case False
  from steps_trace_rejected[OF False, of types properties update] show ?thesis by auto
next
  case True
  then have t: "hasOwnProperty wher (hash_key schema)"
    "(case range_key schema of
            Some r \<Rightarrow> if r \<noteq> [] \<and> \<not> hasOwnProperty wher r then Some r else None
          | None \<Rightarrow> None) = None" by auto
  note st = steps_trace[OF t, of types properties update]
  have v: "\<forall>ev\<in>set (fst (validateData types properties update [])). order_in_code ev = 1"
    by (blast dest: validateData_order)
  have w: "\<forall>ev\<in>set (fst (formatUpdateData types properties update)). order_in_code ev = 2"
    by (blast dest: formatUpdateData_order)
  have "sorted (map order_in_code (fst (updateDocument_steps types schema properties update wher)))"
  proof (cases "snd (assertRequiredUpdateProps properties update)")
    case (Inl e)
    with st show ?thesis by simp
  next
    case r: (Inr u)
    show ?thesis
    proof (cases "snd (validateData types properties update [])")
      case (Inl e)
      with st r sorted_phases(1)[OF v w] show ?thesis by simp
    next
      case (Inr u')
      with st r sorted_phases(2)[OF v w] show ?thesis by simp
    qed
  qed
  moreover have "hasOwnProperty update k"
    if ev: "ev \<in> set (fst (updateDocument_steps types schema properties update wher))"
      and c: "is_validator_call k ev" for k ev
  proof -
    from c have o: "order_in_code ev = 1" by (rule is_validator_call_order)
    from ev st have "ev = Step ''assertRequiredUpdateProps'' \<or> ev = Step ''validateData''
        \<or> ev = Step ''formatUpdateData''
        \<or> ev \<in> set (fst (validateData types properties update []))
        \<or> ev \<in> set (fst (formatUpdateData types properties update))"
      by (auto split: sum.splits)
    with c o w have "ev \<in> set (fst (validateData types properties update []))"
      by auto
    from validateData_keys[OF this c] show ?thesis .
  qed
  moreover have "fst (updateDocument_steps types schema properties update wher) =
          [Step ''assertRequiredUpdateProps'', Step ''validateData'']
          @ fst (validateData types properties update [])
          @ [Step ''formatUpdateData'']
          @ fst (formatUpdateData types properties update)
        \<and> snd (validateData types properties update []) = Inr ()
        \<and> snd (formatUpdateData types properties update) = Inr out"
    if "snd (updateDocument_steps types schema properties update wher) = Inr out"
    using st that by (auto split: sum.splits)
  ultimately show ?thesis by blast
qed

lemma ex_update_steps:
  "updateDocument_steps ex_types ex_keys ex_properties [(''lastActiveAt'', Date 5)]
     [(''email'', Str ''a@b.com''), (''createdAt'', Num (int_number 100))] =
   ([Step ''assertRequiredUpdateProps'',
     Step ''validateData'',
     TypeCheckCall ''lastActiveAt'' (Date 5),
     Step ''formatUpdateData'',
     HookCall ''updatedAt'' ''onUpdate'' Undefined,
     TypeSetCall ''updatedAt'' (Date ex_now),
     TypeSetCall ''lastActiveAt'' (Date 5)],
    Inr [(''lastActiveAt'', Num (int_number 5)), (''updatedAt'', Num (int_number ex_now))])"
  by (simp add: updateDocument_steps_def ex_keys_def formatUpdateData_def write_run_defs
      validate_run_defs ex_defs run_defs)

lemma ex_formatUpdateData:
  "formatUpdateData ex_types ex_properties [(''lastActiveAt'', Date 5)] =
     ([HookCall ''updatedAt'' ''onUpdate'' Undefined,
       TypeSetCall ''updatedAt'' (Date ex_now),
       TypeSetCall ''lastActiveAt'' (Date 5)],
      Inr [(''lastActiveAt'', Num (int_number 5)), (''updatedAt'', Num (int_number ex_now))])"
  by (simp add: formatUpdateData_def write_run_defs ex_defs run_defs)

lemma ex_validate_update:
  "validateData ex_types ex_properties [(''lastActiveAt'', Date 5)] [] =
     ([TypeCheckCall ''lastActiveAt'' (Date 5)], Inr ())"
  by (simp add: validate_run_defs ex_defs run_defs)

theorem update_steps_order_witness:
  "snd (updateDocument_steps ex_types ex_keys ex_properties [(''lastActiveAt'', Date 5)]
          [(''email'', Str ''a@b.com''), (''createdAt'', Num (int_number 100))])
     = Inr [(''lastActiveAt'', Num (int_number 5)), (''updatedAt'', Num (int_number ex_now))]
   \<and> sorted (map order_in_code
        [Step ''assertRequiredUpdateProps'',
         Step ''validateData'',
         TypeCheckCall ''lastActiveAt'' (Date 5),
         Step ''formatUpdateData'',
         HookCall ''updatedAt'' ''onUpdate'' Undefined,
         TypeSetCall ''updatedAt'' (Date ex_now),
         TypeSetCall ''lastActiveAt'' (Date 5)])
   \<and> is_validator_call ''lastActiveAt'' (TypeCheckCall ''lastActiveAt'' (Date 5))
   \<and> hasOwnProperty [(''lastActiveAt'', Date 5)] ''lastActiveAt''
   \<and> fst (validateData ex_types ex_properties [(''lastActiveAt'', Date 5)] [])
     = [TypeCheckCall ''lastActiveAt'' (Date 5)]
   \<and> snd (validateData ex_types ex_properties [(''lastActiveAt'', Date 5)] []) = Inr ()
   \<and> formatUpdateData ex_types ex_properties [(''lastActiveAt'', Date 5)] =
       ([HookCall ''updatedAt'' ''onUpdate'' Undefined,
         TypeSetCall ''updatedAt'' (Date ex_now),
         TypeSetCall ''lastActiveAt'' (Date 5)],
        Inr [(''lastActiveAt'', Num (int_number 5)), (''updatedAt'', Num (int_number ex_now))])"
proof -
  note th = update_steps_order[of ex_types ex_keys ex_properties "[(''lastActiveAt'', Date 5)]"
      "[(''email'', Str ''a@b.com''), (''createdAt'', Num (int_number 100))]"
      "[(''lastActiveAt'', Num (int_number 5)), (''updatedAt'', Num (int_number ex_now))]",
      unfolded ex_update_steps fst_conv snd_conv]
  from th have a: "sorted (map order_in_code
        [Step ''assertRequiredUpdateProps'',
         Step ''validateData'',
         TypeCheckCall ''lastActiveAt'' (Date 5),
         Step ''formatUpdateData'',
         HookCall ''updatedAt'' ''onUpdate'' Undefined,
         TypeSetCall ''updatedAt'' (Date ex_now),
         TypeSetCall ''lastActiveAt'' (Date 5)])"
    by blast
  have c: "is_validator_call ''lastActiveAt'' (TypeCheckCall ''lastActiveAt'' (Date 5))"
    by simp
  from th c have b: "hasOwnProperty [(''lastActiveAt'', Date 5)] ''lastActiveAt''"
    by (simp add: hasOwnProperty_def)
  from th have d: "snd (validateData ex_types ex_properties [(''lastActiveAt'', Date 5)] []) = Inr ()"
    by blast
  from a b c d show ?thesis
    by (simp add: ex_update_steps ex_formatUpdateData ex_validate_update)
qed

text \<open>
  The order of the claim (the write pipeline before the validation engine) fails on the
  update of \<^verbatim>\<open>lastActiveAt\<close>: the structural validator sees the date before the
  type's set transform turns it into a number.
\<close>

theorem update_steps_order_counterexample:
  "fst (updateDocument_steps ex_types ex_keys ex_properties [(''lastActiveAt'', Date 5)]
          [(''email'', Str ''a@b.com''), (''createdAt'', Num (int_number 100))]) =
     [Step ''assertRequiredUpdateProps'',
      Step ''validateData'',
      TypeCheckCall ''lastActiveAt'' (Date 5),
      Step ''formatUpdateData'',
      HookCall ''updatedAt'' ''onUpdate'' Undefined,
      TypeSetCall ''updatedAt'' (Date ex_now),
      TypeSetCall ''lastActiveAt'' (Date 5)]
   \<and> \<not> sorted (map order_in_claim
        (fst (updateDocument_steps ex_types ex_keys ex_properties [(''lastActiveAt'', Date 5)]
                [(''email'', Str ''a@b.com''), (''createdAt'', Num (int_number 100))])))"
  by (simp add: ex_update_steps)

end
